theory Spec2Isabelle
  imports Complex_Main "HOL-Library.Monad_Syntax"
begin

section \<open>The relay engine of juicebox\_mitm.py\<close>

text \<open>
  The class \<open>JuiceboxMITM\<close> relays UDP datagrams between a charging device and its
  cloud.  Its methods are coroutines of one object; the model passes the object's
  attributes as a record, and every interaction with the outside world (the clock, the
  socket library, the callbacks, the sleeps, the timers) is answered by an environment
  that is indexed by the number of interactions made so far.
\<close>

subsection \<open>Data\<close>

type_synonym addr = "string \<times> nat"

text \<open>The three messages of the \<open>ChildProcessError\<close>s the class raises.\<close>

datatype fatal = Unable_to_start | Unable_to_send | More_than_errors nat int

text \<open>
  The exceptions that travel through the class.  \<open>ChildProcessError\<close> and
  \<open>TimeoutError\<close> are subclasses of Python's \<open>OSError\<close>; \<open>TransportClosed\<close> (of
  asyncio\_dgram), \<open>KeyError\<close> and the others are not, and \<open>CancelledError\<close> is not
  even an \<open>Exception\<close>.  An \<open>OSError\<close> carries its \<open>errno\<close>, which is \<open>None\<close> for
  an exception built from a message alone.
\<close>

datatype exn =
    ChildProcessError fatal
  | OSError "nat option"
  | TimeoutError
  | TransportClosed
  | CancelledError
  | KeyError
  | Exception string

fun is_OSError :: "exn \<Rightarrow> bool" where
  "is_OSError (ChildProcessError m) = True"
| "is_OSError (OSError n) = True"
| "is_OSError TimeoutError = True"
| "is_OSError e = False"

fun exn_errno :: "exn \<Rightarrow> nat option" where
  "exn_errno (OSError n) = n"
| "exn_errno e = None"

text \<open>
  What is handed to a transform callback or to the socket: the bytes of a datagram, or
  the diagnostic text of lines 153 and 168, kept as its fields (the side, the
  destination, the name of the error code and the exception).
\<close>

datatype payload = Bytes "nat list" | Diag string "addr option" string exn

datatype sock = Sock nat

text \<open>
  The observable actions, in the order they happen.  \<open>Bind b\<close> is a call of
  \<open>asyncio_dgram.bind\<close>, with \<open>b\<close> telling whether the caller took the sending lock
  for it; \<open>Send\<close> is the locked transmission of line 195; \<open>Fault\<close> is a call of
  \<open>_add_error\<close>; \<open>LoopStart\<close> is the entry of \<open>_mitm_loop\<close> (line 95).
\<close>

datatype event =
    LoopStart
  | Bind bool
  | Sleep real
  | Send payload addr
  | Recv
  | CallLocal payload
  | CallRemote payload
  | Fault

text \<open>
  The constructor's arguments, the constants imported from \<open>const\<close> (that module is
  not part of the sources, so the three constants are parameters) and the table
  \<open>errno.errorcode\<close> of the standard library.
\<close>

record config =
  jpp_addr :: addr
  enelx_addr :: addr
  ignore_remote :: bool
  MAX_CONNECT_ATTEMPT :: int
  MAX_ERROR_COUNT :: int
  ERROR_LOOKBACK_MIN :: int
  errorcode :: "nat \<Rightarrow> string option"

definition SEND_DATA_RETRIES :: int where
  "SEND_DATA_RETRIES = 3"

text \<open>
  The mutable attributes of the object, a counter of the interactions with the
  environment, and the actions so far.  \<open>_mitm_loop_task\<close> is left out: its only
  assignment (line 90) stores the value of \<open>await self._mitm_loop()\<close>, and a coroutine
  without a \<open>return\<close> yields \<open>None\<close>, so the attribute is \<open>None\<close> throughout.
\<close>

record state =
  dgram :: "sock option"
  juicebox_addr :: "addr option"
  error_count :: nat
  error_timestamp_list :: "real list"
  tick :: nat
  trace :: "event list"

text \<open>
  The environment.  Each field answers the interaction made at a given tick:
  \<open>clock\<close> is \<open>time.time()\<close>; \<open>locked\<close> is \<open>self._sending_lock.locked()\<close>;
  \<open>bind_res\<close>, \<open>send_res\<close> and \<open>sleep_res\<close> tell whether the awaited call raised;
  \<open>recv_res\<close> is the outcome of the receive under its timeout; \<open>local_res\<close> and
  \<open>remote_res\<close> are the transform callbacks; \<open>deadline\<close> tells, when a cancellation
  reaches the handler's timeout block, whether that block's own timer had fired.
\<close>

record env =
  clock :: "nat \<Rightarrow> real"
  locked :: "nat \<Rightarrow> bool"
  bind_res :: "nat \<Rightarrow> exn option"
  sleep_res :: "nat \<Rightarrow> exn option"
  send_res :: "nat \<Rightarrow> exn option"
  recv_res :: "nat \<Rightarrow> exn + (payload option \<times> addr option)"
  local_res :: "nat \<Rightarrow> payload \<Rightarrow> exn + payload"
  remote_res :: "nat \<Rightarrow> payload \<Rightarrow> exn + payload"
  deadline :: "nat \<Rightarrow> bool"

text \<open>
  A coroutine either returns (\<open>Some (Inr v)\<close>), raises (\<open>Some (Inl e)\<close>) or has not
  finished within the steps it was given (\<open>None\<close>); the state reached is kept in all
  three cases.
\<close>

type_synonym 'a result = "(exn + 'a) option \<times> state"

subsection \<open>The fault record: \<open>_add_error\<close> (lines 228 to 236)\<close>

definition add_error :: "config \<Rightarrow> env \<Rightarrow> state \<Rightarrow> state" where
  "add_error cfg env st =
     (let appended = error_timestamp_list st @ [clock env (tick st)];
          time_cutoff = clock env (tick st + 1) - real_of_int (ERROR_LOOKBACK_MIN cfg * 60);
          temp_list = filter (\<lambda>el. el > time_cutoff) appended
      in st\<lparr>error_timestamp_list := temp_list,
             error_count := length temp_list,
             tick := tick st + 2,
             trace := trace st @ [Fault]\<rparr>)"

subsection \<open>Single interactions\<close>

definition sleep :: "env \<Rightarrow> real \<Rightarrow> state \<Rightarrow> exn option \<times> state" where
  "sleep env d st =
     (sleep_res env (tick st), st\<lparr>tick := tick st + 1, trace := trace st @ [Sleep d]\<rparr>)"

definition call_local :: "env \<Rightarrow> payload \<Rightarrow> state \<Rightarrow> (exn + payload) \<times> state" where
  "call_local env p st =
     (local_res env (tick st) p, st\<lparr>tick := tick st + 1, trace := trace st @ [CallLocal p]\<rparr>)"

definition call_remote :: "env \<Rightarrow> payload \<Rightarrow> state \<Rightarrow> (exn + payload) \<times> state" where
  "call_remote env p st =
     (remote_res env (tick st) p, st\<lparr>tick := tick st + 1, trace := trace st @ [CallRemote p]\<rparr>)"

definition recv ::
  "env \<Rightarrow> state \<Rightarrow> (exn + (payload option \<times> addr option)) \<times> state" where
  "recv env st = (recv_res env (tick st), st\<lparr>tick := tick st + 1, trace := trace st @ [Recv]\<rparr>)"

subsection \<open>\<open>_connect\<close> (lines 61 to 92)\<close>

text \<open>
  One bind attempt, lines 72 to 85.  The lock is taken only when it is not locked
  already; either way \<open>bind\<close> is called.  An \<open>OSError\<close> is caught and recorded, any
  other exception leaves the method.
\<close>

definition try_bind :: "config \<Rightarrow> env \<Rightarrow> state \<Rightarrow> exn option \<times> state" where
  "try_bind cfg env st =
     (let held = locked env (tick st);
          st1 = st\<lparr>tick := tick st + 2, trace := trace st @ [Bind (\<not> held)]\<rparr>
      in case bind_res env (tick st + 1) of
           None \<Rightarrow> (None, st1\<lparr>dgram := Some (Sock (tick st + 1))\<rparr>)
         | Some e \<Rightarrow>
             if is_OSError e then (None, (add_error cfg env st1)\<lparr>dgram := None\<rparr>)
             else (Some e, st1))"

text \<open>The \<open>while\<close> loop of lines 62 to 86, \<open>connect_attempt\<close> being its counter.\<close>

function connect_loop :: "config \<Rightarrow> env \<Rightarrow> int \<Rightarrow> state \<Rightarrow> exn option \<times> state" where
  "connect_loop cfg env connect_attempt st =
     (if dgram st = None \<and> connect_attempt \<le> MAX_CONNECT_ATTEMPT cfg
         \<and> int (error_count st) < MAX_ERROR_COUNT cfg
      then
        (case try_bind cfg env st of
           (Some e, st1) \<Rightarrow> (Some e, st1)
         | (None, st1) \<Rightarrow>
             (case sleep env 5 st1 of
                (Some e, st2) \<Rightarrow> (Some e, st2)
              | (None, st2) \<Rightarrow> connect_loop cfg env (connect_attempt + 1) st2))
      else (None, st))"
  by pat_completeness auto
termination
  by (relation "measure (\<lambda>(cfg, env, a, st). nat (MAX_CONNECT_ATTEMPT cfg + 1 - a))") auto

declare connect_loop.simps [simp del]

text \<open>
  The whole method.  After the loop, line 87 raises when no socket is held.  Line 90
  awaits \<open>_mitm_loop()\<close> itself, so the receive loop runs inside \<open>_connect\<close>; the
  loop is the parameter \<open>mitm_loop\<close> here.  Should it ever return, line 91 hands its
  value \<open>None\<close> to \<open>create_task\<close>, which raises a \<open>TypeError\<close>.
\<close>

definition connect :: "config \<Rightarrow> env \<Rightarrow> (state \<Rightarrow> unit result) \<Rightarrow> state \<Rightarrow> unit result" where
  "connect cfg env mitm_loop st =
     (case connect_loop cfg env 1 st of
        (Some e, st1) \<Rightarrow> (Some (Inl e), st1)
      | (None, st1) \<Rightarrow>
          if dgram st1 = None then (Some (Inl (ChildProcessError Unable_to_start)), st1)
          else
            (case mitm_loop st1 of
               (Some (Inr u), st2) \<Rightarrow> (Some (Inl (Exception ''TypeError'')), st2)
             | (r, st2) \<Rightarrow> (r, st2)))"

subsection \<open>\<open>send_data\<close> (lines 177 to 212)\<close>

text \<open>
  Lines 191 to 209: the transmission under the lock and the timeout.  The result is the
  new value of \<open>sent\<close>, or the exception that leaves the method.  With no socket the
  attribute access on \<open>None\<close> raises.
\<close>

definition transmit ::
  "config \<Rightarrow> env \<Rightarrow> payload \<Rightarrow> addr \<Rightarrow> state \<Rightarrow> (exn + bool) \<times> state" where
  "transmit cfg env data to_addr st =
     (if dgram st = None then (Inl (Exception ''AttributeError''), st)
      else
        (let st1 = st\<lparr>tick := tick st + 1, trace := trace st @ [Send data to_addr]\<rparr>
         in case send_res env (tick st) of
              None \<Rightarrow> (Inr True, st1)
            | Some e \<Rightarrow>
                if e = TransportClosed then (Inr False, (add_error cfg env st1)\<lparr>dgram := None\<rparr>)
                else if e = TimeoutError then (Inr False, add_error cfg env st1)
                else (Inl e, st1)))"

text \<open>The \<open>while\<close> loop of lines 182 to 210, with its two locals.\<close>

function send_data_loop ::
  "config \<Rightarrow> env \<Rightarrow> (state \<Rightarrow> unit result) \<Rightarrow> payload \<Rightarrow> addr \<Rightarrow> real \<Rightarrow> bool \<Rightarrow> int \<Rightarrow> state
     \<Rightarrow> bool result" where
  "send_data_loop cfg env mitm_loop data to_addr blocking_time sent send_attempt st =
     (if \<not> sent \<and> send_attempt \<le> SEND_DATA_RETRIES then
        (case (if dgram st = None then connect cfg env mitm_loop st else (Some (Inr ()), st)) of
           (None, st1) \<Rightarrow> (None, st1)
         | (Some (Inl e), st1) \<Rightarrow> (Some (Inl e), st1)
         | (Some (Inr u), st1) \<Rightarrow>
             (case transmit cfg env data to_addr st1 of
                (Inl e, st2) \<Rightarrow> (Some (Inl e), st2)
              | (Inr sent', st2) \<Rightarrow>
                  (case sleep env (max blocking_time (1 / 10)) st2 of
                     (Some e, st3) \<Rightarrow> (Some (Inl e), st3)
                   | (None, st3) \<Rightarrow>
                       send_data_loop cfg env mitm_loop data to_addr blocking_time
                         sent' (send_attempt + 1) st3)))
      else (Some (Inr sent), st))"
  by pat_completeness auto
termination
  by (relation "measure (\<lambda>(cfg, env, lp, d, a, b, s, n, st). nat (SEND_DATA_RETRIES + 1 - n))")
     auto

declare send_data_loop.simps [simp del]

definition send_data ::
  "config \<Rightarrow> env \<Rightarrow> (state \<Rightarrow> unit result) \<Rightarrow> payload \<Rightarrow> addr \<Rightarrow> real \<Rightarrow> state \<Rightarrow> unit result" where
  "send_data cfg env mitm_loop data to_addr blocking_time st =
     (case send_data_loop cfg env mitm_loop data to_addr blocking_time False 1 st of
        (None, st1) \<Rightarrow> (None, st1)
      | (Some (Inl e), st1) \<Rightarrow> (Some (Inl e), st1)
      | (Some (Inr sent), st1) \<Rightarrow>
          if \<not> sent then (Some (Inl (ChildProcessError Unable_to_send)), st1)
          else (Some (Inr ()), st1))"

subsection \<open>\<open>_main_mitm_handler\<close> (lines 134 to 175)\<close>

text \<open>
  The \<open>except OSError\<close> blocks of lines 147 to 156 and 162 to 171.  The warning is
  formatted first, and \<open>errno.errorcode[e.errno]\<close> raises a \<open>KeyError\<close> when the
  number is not a key of the table, as \<open>None\<close> never is.
\<close>

definition report_oserror ::
  "config \<Rightarrow> env \<Rightarrow> string \<Rightarrow> addr option \<Rightarrow> exn \<Rightarrow> state \<Rightarrow> unit result" where
  "report_oserror cfg env side dest e st =
     (case (case exn_errno e of None \<Rightarrow> None | Some n \<Rightarrow> errorcode cfg n) of
        None \<Rightarrow> (Some (Inl KeyError), st)
      | Some name \<Rightarrow>
          (case call_local env (Diag side dest name e) st of
             (Inl e', st1) \<Rightarrow> (Some (Inl e'), st1)
           | (Inr v, st1) \<Rightarrow> (Some (Inr ()), add_error cfg env st1)))"

text \<open>A datagram of the device: lines 143 to 156.\<close>

definition forward_local ::
  "config \<Rightarrow> env \<Rightarrow> (state \<Rightarrow> unit result) \<Rightarrow> payload \<Rightarrow> state \<Rightarrow> unit result" where
  "forward_local cfg env mitm_loop data st =
     (case call_local env data st of
        (Inl e, st1) \<Rightarrow> (Some (Inl e), st1)
      | (Inr data', st1) \<Rightarrow>
          if \<not> ignore_remote cfg then
            (case send_data cfg env mitm_loop data' (enelx_addr cfg) (1 / 10) st1 of
               (Some (Inl e), st2) \<Rightarrow>
                 if is_OSError e then report_oserror cfg env ''server'' (Some (enelx_addr cfg)) e st2
                 else (Some (Inl e), st2)
             | (r, st2) \<Rightarrow> (r, st2))
          else (Some (Inr ()), st1))"

text \<open>
  A datagram of the cloud: lines 158 to 173.  The branch is taken only with the device
  address set (line 157), and nothing before the call of \<open>send_data\<close> changes it; for
  the sake of totality an address of \<open>None\<close> is made an error.
\<close>

definition forward_remote ::
  "config \<Rightarrow> env \<Rightarrow> (state \<Rightarrow> unit result) \<Rightarrow> payload \<Rightarrow> state \<Rightarrow> unit result" where
  "forward_remote cfg env mitm_loop data st =
     (if \<not> ignore_remote cfg then
        (case call_remote env data st of
           (Inl e, st1) \<Rightarrow> (Some (Inl e), st1)
         | (Inr data', st1) \<Rightarrow>
             (case juicebox_addr st1 of
                None \<Rightarrow> (Some (Inl (Exception ''TypeError'')), st1)
              | Some dev \<Rightarrow>
                  (case send_data cfg env mitm_loop data' dev (1 / 10) st1 of
                     (Some (Inl e), st2) \<Rightarrow>
                       if is_OSError e then report_oserror cfg env ''client'' (juicebox_addr st2) e st2
                       else (Some (Inl e), st2)
                   | (r, st2) \<Rightarrow> (r, st2))))
      else (Some (Inr ()), st))"

definition main_mitm_handler ::
  "config \<Rightarrow> env \<Rightarrow> (state \<Rightarrow> unit result) \<Rightarrow> state \<Rightarrow> payload option \<Rightarrow> addr option
     \<Rightarrow> unit result" where
  "main_mitm_handler cfg env mitm_loop st data from_addr =
     (case data of
        None \<Rightarrow> (Some (Inr ()), st)
      | Some d \<Rightarrow>
          (case from_addr of
             None \<Rightarrow> (Some (Inr ()), st)
           | Some a \<Rightarrow>
               (let st1 = (if fst a \<noteq> fst (enelx_addr cfg) then st\<lparr>juicebox_addr := Some a\<rparr>
                           else st)
                in if Some a = juicebox_addr st1 then forward_local cfg env mitm_loop d st1
                   else if juicebox_addr st1 \<noteq> None \<and> a = enelx_addr cfg
                        then forward_remote cfg env mitm_loop d st1
                   else (Some (Inr ()), st1))))"

subsection \<open>\<open>_mitm_loop\<close> (lines 94 to 132)\<close>

text \<open>
  The exit of the handler's timeout block (lines 120 to 128): a cancellation that the
  block's own timer caused leaves the block as a \<open>TimeoutError\<close>.
\<close>

definition handler_timeout_exit :: "env \<Rightarrow> exn \<Rightarrow> state \<Rightarrow> exn \<times> state" where
  "handler_timeout_exit env e st =
     (if e = CancelledError
      then (if deadline env (tick st) then TimeoutError else CancelledError,
            st\<lparr>tick := tick st + 1\<rparr>)
      else (e, st))"

text \<open>
  The \<open>while\<close> loop of lines 96 to 128 followed by the \<open>raise\<close> of line 129.  The loop
  need not end, so it is given a number of steps: one is used by every iteration and by
  every receive loop started from inside \<open>_connect\<close>.  The loop's condition is looked at
  before a step is used.
\<close>

primrec mitm_while :: "config \<Rightarrow> env \<Rightarrow> nat \<Rightarrow> state \<Rightarrow> unit result" where
  "mitm_while cfg env 0 =
     (\<lambda>st. if int (error_count st) < MAX_ERROR_COUNT cfg then (None, st)
           else (Some (Inl (ChildProcessError
                   (More_than_errors (error_count st) (ERROR_LOOKBACK_MIN cfg)))), st))"
| "mitm_while cfg env (Suc n) =
     (\<lambda>st. if int (error_count st) < MAX_ERROR_COUNT cfg then
             (case dgram st of
                None \<Rightarrow>
                  (case connect cfg env
                          (\<lambda>s. mitm_while cfg env n (s\<lparr>trace := trace s @ [LoopStart]\<rparr>))
                          (add_error cfg env st) of
                     (Some (Inr u), st1) \<Rightarrow> mitm_while cfg env n st1
                   | (r, st1) \<Rightarrow> (r, st1))
              | Some sk \<Rightarrow>
                  (case recv env st of
                     (Inl e, st1) \<Rightarrow>
                       if e = TransportClosed \<or> e = TimeoutError
                       then mitm_while cfg env n ((add_error cfg env st1)\<lparr>dgram := None\<rparr>)
                       else (Some (Inl e), st1)
                   | (Inr (data, remote_addr), st1) \<Rightarrow>
                       (case main_mitm_handler cfg env
                               (\<lambda>s. mitm_while cfg env n (s\<lparr>trace := trace s @ [LoopStart]\<rparr>))
                               st1 data remote_addr of
                          (None, st2) \<Rightarrow> (None, st2)
                        | (Some (Inr u), st2) \<Rightarrow> mitm_while cfg env n st2
                        | (Some (Inl e), st2) \<Rightarrow>
                            (case handler_timeout_exit env e st2 of
                               (e', st3) \<Rightarrow>
                                 if e' = TimeoutError
                                 then mitm_while cfg env n
                                        ((add_error cfg env st3)\<lparr>dgram := None\<rparr>)
                                 else (Some (Inl e'), st3)))))
           else (Some (Inl (ChildProcessError
                   (More_than_errors (error_count st) (ERROR_LOOKBACK_MIN cfg)))), st))"

definition mitm_loop :: "config \<Rightarrow> env \<Rightarrow> nat \<Rightarrow> state \<Rightarrow> unit result" where
  "mitm_loop cfg env fuel st = mitm_while cfg env fuel (st\<lparr>trace := trace st @ [LoopStart]\<rparr>)"

text \<open>\<open>start\<close> (lines 48 to 53) is \<open>_connect\<close> on the fresh object.\<close>

definition init :: state where
  "init = \<lparr>dgram = None, juicebox_addr = None, error_count = 0, error_timestamp_list = [],
           tick = 0, trace = []\<rparr>"

definition start :: "config \<Rightarrow> env \<Rightarrow> nat \<Rightarrow> unit result" where
  "start cfg env fuel = connect cfg env (mitm_loop cfg env fuel) init"

section \<open>The sending lock between two coroutines\<close>

text \<open>
  The lock matters when a second coroutine of the object is running, as one that calls
  \<open>send_data_to_juicebox\<close> while the receive loop reconnects.  The event loop resumes
  one coroutine at a time and lets it run to its next \<open>await\<close>.  Here one coroutine
  makes the transmission of lines 193 to 203 and the other the bind attempt of lines 72
  to 77; each is at one of three places.
\<close>

datatype coroutine = Sender | Connector

text \<open>
  The sender: before \<open>async with self._sending_lock\<close>, awaiting
  \<open>self._dgram.send\<close> with the lock taken, or past the block.
\<close>

datatype send_pc = Send_waiting | Send_in_flight | Send_done

text \<open>
  The connector: before the test of line 73, awaiting \<open>asyncio_dgram.bind\<close> (having
  taken the lock or not), or past the attempt.
\<close>

datatype bind_pc = Bind_pending | Bind_in_flight bool | Bind_done

record loop_state =
  sending_lock :: "coroutine option"
  send_at :: send_pc
  bind_at :: bind_pc

text \<open>
  One resumption.  A sender that finds the lock taken keeps waiting.  A connector that
  finds it taken binds at once (line 74); otherwise it takes the lock for the bind
  (lines 76 and 77).  Leaving an \<open>async with\<close> block releases the lock.
\<close>

fun resume :: "coroutine \<Rightarrow> loop_state \<Rightarrow> loop_state" where
  "resume Sender w =
     (case send_at w of
        Send_waiting \<Rightarrow>
          if sending_lock w = None
          then w\<lparr>sending_lock := Some Sender, send_at := Send_in_flight\<rparr>
          else w
      | Send_in_flight \<Rightarrow> w\<lparr>sending_lock := None, send_at := Send_done\<rparr>
      | Send_done \<Rightarrow> w)"
| "resume Connector w =
     (case bind_at w of
        Bind_pending \<Rightarrow>
          if sending_lock w \<noteq> None
          then w\<lparr>bind_at := Bind_in_flight False\<rparr>
          else w\<lparr>sending_lock := Some Connector, bind_at := Bind_in_flight True\<rparr>
      | Bind_in_flight took \<Rightarrow>
          w\<lparr>sending_lock := (if took then None else sending_lock w), bind_at := Bind_done\<rparr>
      | Bind_done \<Rightarrow> w)"

text \<open>A schedule is the list of the coroutines resumed, in order.\<close>

fun run :: "coroutine list \<Rightarrow> loop_state \<Rightarrow> loop_state" where
  "run [] w = w"
| "run (c # cs) w = run cs (resume c w)"

definition idle :: loop_state where
  "idle = \<lparr>sending_lock = None, send_at = Send_waiting, bind_at = Bind_pending\<rparr>"

definition lock_respected :: "loop_state \<Rightarrow> bool" where
  "lock_respected w =
     ((send_at w = Send_in_flight) = (sending_lock w = Some Sender)
      \<and> (bind_at w = Bind_in_flight True) = (sending_lock w = Some Connector))"

section \<open>The message codec\<close>

text \<open>
  The tests import \<open>juicebox_message\<close>, which is not among the sources; neither is the
  checksum algorithm, which the spec calls not derivable.  The definitions of this
  section follow the spec and the literal vectors of test\_message.py.
\<close>

text \<open>
  Modelled from the spec: the digits of the serial number and of the numeric fields (the
  module \<open>juicebox_message\<close>, with its parser and \<open>build()\<close>, is missing).
\<close>

definition digit :: "char \<Rightarrow> bool" where
  "digit c = (c \<in> set ''0123456789'')"

text \<open>
  Modelled from the spec: the letters of the "short alphabetic prefix" that is the key of
  a status token (the parser is missing).
\<close>

definition alpha :: "char \<Rightarrow> bool" where
  "alpha c = (c \<in> set ''abcdefghijklmnopqrstuvwxyzABCDEFGHIJKLMNOPQRSTUVWXYZ'')"

text \<open>
  Modelled from the spec: the fields of a command message (the class \<open>JuiceboxCommand\<close>
  is missing), kept as the text that \<open>get_value\<close> returns in the tests
  (\<open>get_value("DOW") = "4"\<close>, \<open>get_value("HHMM") = "1325"\<close>); \<open>new_version\<close> is the
  width variant chosen at construction.
\<close>

record command_fields =
  new_version :: bool
  dow :: string
  hhmm :: string
  instant_amperage :: string
  offline_amperage :: string
  constant_field :: string
  sequence :: string

text \<open>
  Modelled from the spec: the tagged union of the three message shapes (the classes of
  \<open>juicebox_message\<close> are missing); a text message carries its checksum, a status
  message its serial number and its ordered tokens, each a key and a value.
\<close>

datatype message =
    EncryptedMessage string
  | CommandMessage command_fields string
  | StatusMessage string "(string \<times> string) list" string

text \<open>
  Modelled from the spec: the framing of both grammars (the parser is missing): the
  payload, \<open>!\<close>, a checksum of three characters, and the terminator.
\<close>

definition split_frame :: "string \<Rightarrow> (string \<times> string \<times> char) option" where
  "split_frame s =
     (case rev s of
        terminator # c3 # c2 # c1 # bang # rev_payload \<Rightarrow>
          if bang = CHR ''!'' then Some (rev rev_payload, [c1, c2, c3], terminator) else None
      | _ \<Rightarrow> None)"

text \<open>
  Modelled from the spec: reading a literal of the command grammar (the parser is
  missing).
\<close>

definition expect :: "string \<Rightarrow> string \<Rightarrow> string option" where
  "expect lit s = (if take (length lit) s = lit then Some (drop (length lit) s) else None)"

text \<open>
  Modelled from the spec: reading a field of \<open>n\<close> digits of the command grammar (the
  parser is missing).
\<close>

definition digits_n :: "nat \<Rightarrow> string \<Rightarrow> (string \<times> string) option" where
  "digits_n n s =
     (if n \<le> length s \<and> list_all digit (take n s) then Some (take n s, drop n s) else None)"

text \<open>
  Modelled from the spec: the width of the amperage field (\<open>JuiceboxCommand\<close> is
  missing): two digits in the legacy variant, four in the widened one.
\<close>

definition amperage_width :: "bool \<Rightarrow> nat" where
  "amperage_width v = (if v then 4 else 2)"

text \<open>
  Modelled from the spec: the width of the offline amperage field (\<open>JuiceboxCommand\<close>
  is missing): two digits in the legacy variant, three in the widened one.
\<close>

definition offline_width :: "bool \<Rightarrow> nat" where
  "offline_width v = (if v then 3 else 2)"

text \<open>
  Modelled from the spec: the command grammar (the parser is missing):
  \<open>CMD\<close>, DOW (one digit, 1 to 7), HHMM (four digits), \<open>A\<close>, the amperage, \<open>M\<close>, the
  offline amperage, \<open>C\<close> and its field, \<open>S\<close> and the sequence number.  The spec
  writes the constant field as \<open>C006\<close>; the vectors of test\_message.py also carry
  \<open>C244\<close> and \<open>C008\<close> and are required to round-trip, so the field is read as three
  digits.
\<close>

definition parse_command :: "bool \<Rightarrow> string \<Rightarrow> command_fields option" where
  "parse_command v p =
     do {
       r \<leftarrow> expect ''CMD'' p;
       (d, r) \<leftarrow> digits_n 1 r;
       (t, r) \<leftarrow> digits_n 4 r;
       r \<leftarrow> expect ''A'' r;
       (a, r) \<leftarrow> digits_n (amperage_width v) r;
       r \<leftarrow> expect ''M'' r;
       (m, r) \<leftarrow> digits_n (offline_width v) r;
       r \<leftarrow> expect ''C'' r;
       (c, r) \<leftarrow> digits_n 3 r;
       q \<leftarrow> expect ''S'' r;
       if d \<in> set [''1'', ''2'', ''3'', ''4'', ''5'', ''6'', ''7''] \<and> q \<noteq> [] \<and> list_all digit q
       then Some \<lparr>new_version = v, dow = d, hhmm = t, instant_amperage = a,
                   offline_amperage = m, constant_field = c, sequence = q\<rparr>
       else None
     }"

text \<open>
  Modelled from the spec: the payload of a command message, its fields in the order of
  the grammar (\<open>build()\<close> is missing).
\<close>

definition command_payload :: "command_fields \<Rightarrow> string" where
  "command_payload f =
     ''CMD'' @ dow f @ hhmm f @ ''A'' @ instant_amperage f @ ''M'' @ offline_amperage f
       @ ''C'' @ constant_field f @ ''S'' @ sequence f"

text \<open>
  Modelled from the spec: splitting the comma-joined tokens of a status payload (the
  parser is missing).
\<close>

fun split_commas :: "string \<Rightarrow> string list" where
  "split_commas [] = [[]]"
| "split_commas (c # cs) =
     (if c = CHR '','' then [] # split_commas cs
      else (case split_commas cs of
              t # ts \<Rightarrow> (c # t) # ts
            | [] \<Rightarrow> [[c]]))"

text \<open>
  Modelled from the spec: joining the tokens of a status payload with commas
  (\<open>build()\<close> is missing).
\<close>

fun join_commas :: "string list \<Rightarrow> string" where
  "join_commas [] = []"
| "join_commas [t] = t"
| "join_commas (t # ts) = t @ '','' @ join_commas ts"

text \<open>
  Modelled from the spec: a status token is its alphabetic key followed by its value,
  the remainder (the parser is missing).
\<close>

definition split_token :: "string \<Rightarrow> string \<times> string" where
  "split_token t = (takeWhile alpha t, dropWhile alpha t)"

text \<open>
  Modelled from the spec: the status grammar (the parser is missing): the serial number,
  a digit run, then \<open>:\<close>, then the tokens, each with a key.
\<close>

definition parse_status :: "string \<Rightarrow> (string \<times> (string \<times> string) list) option" where
  "parse_status p =
     (let serial = takeWhile digit p
      in case dropWhile digit p of
           [] \<Rightarrow> None
         | c # body \<Rightarrow>
             if serial \<noteq> [] \<and> c = CHR '':''
                \<and> list_all (\<lambda>t. takeWhile alpha t \<noteq> []) (split_commas body)
             then Some (serial, map split_token (split_commas body))
             else None)"

text \<open>
  Modelled from the spec: the payload of a status message (\<open>build()\<close> is missing).
\<close>

definition status_payload :: "string \<Rightarrow> (string \<times> string) list \<Rightarrow> string" where
  "status_payload serial tokens = serial @ '':'' @ join_commas (map (\<lambda>(k, v). k @ v) tokens)"

text \<open>
  Modelled from the spec: parsing a wire string (\<open>juicebox_message_from_string\<close> is
  missing).  The checksum function is a parameter.  The result is \<open>None\<close> for a
  string that is not a valid command or status message: the frame is absent, the
  checksum differs from the computed one, or the payload does not follow the grammar
  of its terminator (\<open>$\<close> for a command, \<open>:\<close> for a status message).
\<close>

definition parse :: "(string \<Rightarrow> string) \<Rightarrow> bool \<Rightarrow> string \<Rightarrow> message option" where
  "parse checksum_computed v s =
     (case split_frame s of
        None \<Rightarrow> None
      | Some (payload_str, checksum_str, terminator) \<Rightarrow>
          if checksum_str \<noteq> checksum_computed payload_str then None
          else if terminator = CHR ''$''
          then map_option (\<lambda>f. CommandMessage f checksum_str) (parse_command v payload_str)
          else if terminator = CHR '':''
          then map_option (\<lambda>(serial, tokens). StatusMessage serial tokens checksum_str)
                 (parse_status payload_str)
          else None)"

text \<open>
  Modelled from the spec: \<open>build()\<close> (missing): the payload, \<open>!\<close>, the checksum
  computed over the payload, and the terminator; an encrypted message is its bytes.
\<close>

fun build :: "(string \<Rightarrow> string) \<Rightarrow> message \<Rightarrow> string" where
  "build checksum_computed (CommandMessage f cs) =
     command_payload f @ ''!'' @ checksum_computed (command_payload f) @ ''$''"
| "build checksum_computed (StatusMessage serial tokens cs) =
     status_payload serial tokens @ ''!'' @ checksum_computed (status_payload serial tokens) @ '':''"
| "build checksum_computed (EncryptedMessage b) = b"

text \<open>
  Modelled from the spec: a checksum function (\<open>checksum_computed\<close> is missing, and the
  spec gives its literal vectors as the only oracle): the table of some of the pairs of
  test\_message.py.
\<close>

definition test_vector_checksum :: "string \<Rightarrow> string" where
  "test_vector_checksum p =
     (if p = ''CMD41325A0040M040C006S638'' then ''5N5''
      else if p = ''CMD62210A20M18C006S006'' then ''31Y''
      else if p = ''CMD62207A20M20C244S997'' then ''R5Y''
      else if p = ''0910042001260513476122621631:v09u,s627,F10,u01254993,V2414,L00004555804,S01,T08,M0040,C0040,m0040,t29,i75,e00000,f5999,r61,b000,B0000000''
        then ''55M''
      else ''000'')"

section \<open>Sample configuration and environments\<close>

text \<open>
  A configuration with the lookback of one hour, and an environment in which nothing
  goes wrong and the clock stands at \<open>t\<close>.
\<close>

definition sample_cfg :: config where
  "sample_cfg =
     \<lparr>jpp_addr = (''0.0.0.0'', 8047), enelx_addr = (''cloud'', 8042), ignore_remote = False,
      MAX_CONNECT_ATTEMPT = 3, MAX_ERROR_COUNT = 3, ERROR_LOOKBACK_MIN = 60,
      errorcode = (\<lambda>n. if n = 101 then Some ''ENETUNREACH'' else None)\<rparr>"

definition calm_env :: "real \<Rightarrow> env" where
  "calm_env t =
     \<lparr>clock = (\<lambda>n. t), locked = (\<lambda>n. False), bind_res = (\<lambda>n. None),
      sleep_res = (\<lambda>n. None), send_res = (\<lambda>n. None),
      recv_res = (\<lambda>n. Inl TimeoutError), local_res = (\<lambda>n p. Inr p),
      remote_res = (\<lambda>n p. Inr p), deadline = (\<lambda>n. False)\<rparr>"

definition device :: addr where
  "device = (''192.168.1.50'', 40000)"

definition device2 :: addr where
  "device2 = (''192.168.1.77'', 40001)"

section \<open>Reading the actions\<close>

text \<open>The kinds of actions that the statements below count.\<close>

fun is_bind :: "event \<Rightarrow> bool" where
  "is_bind (Bind b) = True"
| "is_bind e = False"

fun is_sleep :: "event \<Rightarrow> bool" where
  "is_sleep (Sleep d) = True"
| "is_sleep e = False"

fun is_fault :: "event \<Rightarrow> bool" where
  "is_fault Fault = True"
| "is_fault e = False"

fun is_send :: "event \<Rightarrow> bool" where
  "is_send (Send p a) = True"
| "is_send e = False"

text \<open>A bind that succeeds, or fails with an \<open>OSError\<close>, the failure line 78 catches.\<close>

definition oserror_or_ok :: "exn option \<Rightarrow> bool" where
  "oserror_or_ok r = (case r of None \<Rightarrow> True | Some e \<Rightarrow> is_OSError e)"

text \<open>
  The actions of a call before a receive loop is entered from inside it: that loop does
  not return, so they are the actions of the call itself.
\<close>

definition own :: "event list \<Rightarrow> event list" where
  "own es = takeWhile (\<lambda>e. e \<noteq> LoopStart) es"

text \<open>A receive loop, as \<open>_connect\<close> runs it, first of all marks its entry.\<close>

definition marks :: "(state \<Rightarrow> 'a \<times> state) \<Rightarrow> bool" where
  "marks f = (\<forall>s. \<exists>es. trace (snd (f s)) = trace s @ LoopStart # es)"

text \<open>
  Environments in which every bind fails with \<open>EADDRINUSE\<close>, and in which every
  transmission times out while the device keeps sending; a relay that holds a socket;
  a configuration with a larger error budget.
\<close>

definition bind_fails_env :: env where
  "bind_fails_env = (calm_env 0)\<lparr>bind_res := (\<lambda>n. Some (OSError (Some 98)))\<rparr>"

definition send_times_out_env :: env where
  "send_times_out_env =
     (calm_env 0)\<lparr>send_res := (\<lambda>n. Some TimeoutError),
                   recv_res := (\<lambda>n. Inr (Some (Bytes [1, 2]), Some device))\<rparr>"

definition connected :: state where
  "connected = init\<lparr>dgram := Some (Sock 0)\<rparr>"

definition roomy_cfg :: config where
  "roomy_cfg = sample_cfg\<lparr>MAX_ERROR_COUNT := 10\<rparr>"

text \<open>
  Three more environments, each with the clock that its sleeps and timeouts make.  In
  the first the device sends one datagram and the transport is closed at every
  transmission and at every later receive.  In the second only the first transmission
  finds the transport closed, and the cloud keeps sending datagrams.  In the third the
  first bind succeeds, every later one fails with \<open>EADDRINUSE\<close>, and every receive
  times out after its 120 seconds.
\<close>

definition lost_socket_env :: env where
  "lost_socket_env =
     (calm_env 0)\<lparr>clock := (\<lambda>n. if n \<le> 5 then 0 else if n \<le> 8 then 1 / 10 else 51 / 10),
                   send_res := (\<lambda>n. Some TransportClosed),
                   recv_res := (\<lambda>n. if n = 0 then Inr (Some (Bytes [1, 2]), Some device)
                                      else Inl TransportClosed)\<rparr>"

definition healed_env :: env where
  "healed_env =
     (calm_env 0)\<lparr>send_res := (\<lambda>n. if n = 0 then Some TransportClosed else None),
                   recv_res := (\<lambda>n. Inr (Some (Bytes [9]), Some (''cloud'', 8042)))\<rparr>"

definition rebind_fails_env :: env where
  "rebind_fails_env =
     (calm_env 0)\<lparr>clock := (\<lambda>n. if n \<le> 2 then 0 else if n \<le> 3 then 5 else if n \<le> 12 then 125
                              else if n \<le> 17 then 130 else if n \<le> 22 then 135 else 140),
                   bind_res := (\<lambda>n. if n = 1 then None else Some (OSError (Some 98)))\<rparr>"

text \<open>
  The states in which the receive loop of the second environment goes round: a socket
  is held, no device is known, and the fault count is below the maximum of
  \<open>sample_cfg\<close>.
\<close>

definition watching :: "state \<Rightarrow> bool" where
  "watching st = (dgram st \<noteq> None \<and> juicebox_addr st = None \<and> error_count st < 3)"

text \<open>
  A number of faults recorded one after the other, the window in seconds, and the two
  readings of the clock that each of these faults makes.
\<close>

primrec record_faults :: "config \<Rightarrow> env \<Rightarrow> nat \<Rightarrow> state \<Rightarrow> state" where
  "record_faults cfg env 0 st = st"
| "record_faults cfg env (Suc n) st = add_error cfg env (record_faults cfg env n st)"

definition window :: "config \<Rightarrow> real" where
  "window cfg = real_of_int (ERROR_LOOKBACK_MIN cfg * 60)"

definition stamp :: "env \<Rightarrow> state \<Rightarrow> nat \<Rightarrow> real" where
  "stamp env st i = clock env (tick st + 2 * i)"

definition cutoff :: "config \<Rightarrow> env \<Rightarrow> state \<Rightarrow> nat \<Rightarrow> real" where
  "cutoff cfg env st j = clock env (tick st + 2 * j + 1) - window cfg"

text \<open>
  An environment whose clock advances by 2000 seconds with every reading, so that
  consecutive faults are more than an hour apart, and the fault records it leaves.
\<close>

definition spaced_env :: env where
  "spaced_env = (calm_env 0)\<lparr>clock := (\<lambda>n. 2000 * real n)\<rparr>"

definition sparse :: "state \<Rightarrow> bool" where
  "sparse st = ((\<forall>x \<in> set (error_timestamp_list st). x \<le> 2000 * real (tick st) - 4000)
                \<and> error_count st \<le> 1)"

section \<open>The fault record\<close>




section \<open>The datagram handler\<close>

text \<open>
  C10.  With no payload or with no source address the handler returns at once: the state
  (the device address, the socket, the fault record, the actions made and the number of
  interactions) is the one it was given.
\<close>

theorem handler_none_returns_unchanged:
  "main_mitm_handler cfg env lp st None from_addr = (Some (Inr ()), st)
   \<and> main_mitm_handler cfg env lp st data None = (Some (Inr ()), st)"
  by (simp add: main_mitm_handler_def split: option.split)

text \<open>
  C8.  A datagram whose source host is not the cloud's host is handled as the device's,
  in the state whose device address is that source, whatever address was stored before.
  When forwarding to the cloud is disabled and the local transform returns, that is the
  state the handler leaves.
\<close>

theorem handler_learns_device_every_time:
  assumes "fst a \<noteq> fst (enelx_addr cfg)"
  shows "main_mitm_handler cfg env lp st (Some d) (Some a) =
           forward_local cfg env lp d (st\<lparr>juicebox_addr := Some a\<rparr>)
         \<and> (ignore_remote cfg \<and> local_res env (tick st) d = Inr d' \<longrightarrow>
              main_mitm_handler cfg env lp st (Some d) (Some a) =
                (Some (Inr ()),
                 st\<lparr>juicebox_addr := Some a, tick := tick st + 1,
                    trace := trace st @ [CallLocal d]\<rparr>))"
  using assms
  by (simp add: main_mitm_handler_def forward_local_def call_local_def Let_def)

theorem handler_learns_device_every_time_witness:
  "juicebox_addr (snd (main_mitm_handler (sample_cfg\<lparr>ignore_remote := True\<rparr>) (calm_env 0)
      (mitm_loop sample_cfg (calm_env 0) 0)
      (init\<lparr>juicebox_addr := Some device\<rparr>) (Some (Bytes [1, 2])) (Some device2))) = Some device2"
proof -
  have "fst device2 \<noteq> fst (enelx_addr (sample_cfg\<lparr>ignore_remote := True\<rparr>))"
    by (simp add: device2_def sample_cfg_def)
  from handler_learns_device_every_time [OF this, of "calm_env 0" "mitm_loop sample_cfg (calm_env 0) 0"
      "init\<lparr>juicebox_addr := Some device\<rparr>" "Bytes [1, 2]" "Bytes [1, 2]", THEN conjunct2]
  have "main_mitm_handler (sample_cfg\<lparr>ignore_remote := True\<rparr>) (calm_env 0)
      (mitm_loop sample_cfg (calm_env 0) 0)
          (init\<lparr>juicebox_addr := Some device\<rparr>) (Some (Bytes [1, 2])) (Some device2) =
        (Some (Inr ()),
         init\<lparr>juicebox_addr := Some device2, tick := 1, trace := [CallLocal (Bytes [1, 2])]\<rparr>)"
    by (simp add: sample_cfg_def calm_env_def init_def)
  then show ?thesis
    by simp
qed

section \<open>Reconnecting and sending\<close>

lemma add_error_fields [simp]:
  "trace (add_error cfg env st) = trace st @ [Fault]"
  "dgram (add_error cfg env st) = dgram st"
  "juicebox_addr (add_error cfg env st) = juicebox_addr st"
  "tick (add_error cfg env st) = tick st + 2"
  "error_count (add_error cfg env st) = length (error_timestamp_list (add_error cfg env st))"
  by (simp_all add: add_error_def Let_def)

lemma try_bind_events:
  assumes "try_bind cfg env st = (r, st1)"
  shows "\<exists>es. trace st1 = trace st @ es \<and> length (filter is_bind es) = 1
           \<and> filter is_sleep es = []
           \<and> (oserror_or_ok (bind_res env (tick st + 1)) \<longrightarrow>
                r = None \<and> length (filter is_fault es) = (if dgram st1 = None then 1 else 0))"
  using assms
  by (auto simp: try_bind_def Let_def oserror_or_ok_def split: option.splits if_splits)

lemma sleep_events:
  assumes "sleep env d st = (r, st1)"
  shows "trace st1 = trace st @ [Sleep d] \<and> dgram st1 = dgram st \<and> r = sleep_res env (tick st)
         \<and> error_count st1 = error_count st"
  using assms by (auto simp: sleep_def)

lemma connect_loop_events:
  assumes "connect_loop cfg env a st = (r, st')"
  shows "\<exists>es. trace st' = trace st @ es
           \<and> int (length (filter is_bind es)) \<le> max 0 (MAX_CONNECT_ATTEMPT cfg + 1 - a)
           \<and> ((\<forall>n. oserror_or_ok (bind_res env n)) \<and> (\<forall>n. sleep_res env n = None) \<longrightarrow>
                r = None
                \<and> filter is_sleep es = replicate (length (filter is_bind es)) (Sleep 5)
                \<and> (dgram st = None \<longrightarrow>
                     length (filter is_bind es) =
                       length (filter is_fault es) + (if dgram st' = None then 0 else 1))
                \<and> (dgram st' = None \<and> int (error_count st') < MAX_ERROR_COUNT cfg \<longrightarrow>
                     int (length (filter is_bind es)) = max 0 (MAX_CONNECT_ATTEMPT cfg + 1 - a)))"
  using assms
proof (induction cfg env a st arbitrary: r st' rule: connect_loop.induct)
  case (1 cfg env a st)
  show ?case
  proof (cases "dgram st = None \<and> a \<le> MAX_CONNECT_ATTEMPT cfg
                 \<and> int (error_count st) < MAX_ERROR_COUNT cfg")
    case False
    with "1.prems" have "st' = st" "r = None"
      by (auto simp: connect_loop.simps [of cfg env a st])
    with False show ?thesis by auto
  next
    case guard: True
    obtain rb st1 where tb: "try_bind cfg env st = (rb, st1)" by (cases "try_bind cfg env st")
    from try_bind_events [OF tb] obtain es1 where
      es1: "trace st1 = trace st @ es1" "length (filter is_bind es1) = 1" "filter is_sleep es1 = []"
        "oserror_or_ok (bind_res env (tick st + 1)) \<longrightarrow>
           rb = None \<and> length (filter is_fault es1) = (if dgram st1 = None then 1 else 0)"
      by blast
    show ?thesis
    proof (cases rb)
      case (Some e)
      with "1.prems" guard tb have "st' = st1" "r = Some e"
        by (auto simp: connect_loop.simps [of cfg env a st])
      with es1 guard Some show ?thesis
        by (intro exI [of _ es1]) auto
    next
      case None
      obtain rs st2 where sl: "sleep env 5 st1 = (rs, st2)" by (cases "sleep env 5 st1")
      note s2 = sleep_events [OF sl]
      show ?thesis
      proof (cases rs)
        case (Some e)
        with "1.prems" guard tb None sl have "st' = st2" "r = Some e"
          by (auto simp: connect_loop.simps [of cfg env a st])
        with es1 s2 guard Some show ?thesis
          by (intro exI [of _ "es1 @ [Sleep 5]"]) auto
      next
        case rsNone: None
        with "1.prems" guard tb None sl have rec: "connect_loop cfg env (a + 1) st2 = (r, st')"
          by (auto simp: connect_loop.simps [of cfg env a st])
        from "1.IH" [OF guard tb [symmetric] None sl [symmetric] rsNone rec]
        obtain es2 where
          es2: "trace st' = trace st2 @ es2"
            "int (length (filter is_bind es2)) \<le> max 0 (MAX_CONNECT_ATTEMPT cfg + 1 - (a + 1))"
            "(\<forall>n. oserror_or_ok (bind_res env n)) \<and> (\<forall>n. sleep_res env n = None) \<longrightarrow>
                r = None
                \<and> filter is_sleep es2 = replicate (length (filter is_bind es2)) (Sleep 5)
                \<and> (dgram st2 = None \<longrightarrow>
                     length (filter is_bind es2) =
                       length (filter is_fault es2) + (if dgram st' = None then 0 else 1))
                \<and> (dgram st' = None \<and> int (error_count st') < MAX_ERROR_COUNT cfg \<longrightarrow>
                     int (length (filter is_bind es2)) = max 0 (MAX_CONNECT_ATTEMPT cfg + 1 - (a + 1)))"
          by (elim exE conjE) (rule that, assumption+)
        have stop: "dgram st2 \<noteq> None \<Longrightarrow> st' = st2 \<and> es2 = []"
          using rec es2(1) by (auto simp: connect_loop.simps [of cfg env "a + 1" st2])
        show ?thesis
          using es1 s2 es2 guard stop
          by (intro exI [of _ "es1 @ [Sleep 5] @ es2"]) (auto split: if_splits)
      qed
    qed
  qed
qed

lemma connect_loop_grows:
  assumes "connect_loop cfg env a st = (r, st')"
  shows "\<exists>es. trace st' = trace st @ es"
proof -
  from connect_loop_events [OF assms] obtain es where "trace st' = trace st @ es"
    by (elim exE conjE) (rule that)
  then show ?thesis ..
qed

lemma connect_never_returns: "connect cfg env lp st = (r, st') \<Longrightarrow> r \<noteq> Some (Inr u)"
  unfolding connect_def
  by (cases "connect_loop cfg env 1 st"; cases "lp (snd (connect_loop cfg env 1 st))")
     (auto split: option.splits if_splits sum.splits)

lemma marksD: "marks f \<Longrightarrow> f s = (r, s') \<Longrightarrow> \<exists>es. trace s' = trace s @ LoopStart # es"
  unfolding marks_def by (metis snd_conv)

lemma own_simps [simp]:
  "own [] = []"
  "own (LoopStart # es) = []"
  "own (Bind b # es) = Bind b # own es"
  "own (Sleep d # es) = Sleep d # own es"
  "own (Send p a # es) = Send p a # own es"
  "own (Fault # es) = Fault # own es"
  "own (Recv # es) = Recv # own es"
  "own (CallLocal p # es) = CallLocal p # own es"
  "own (CallRemote p # es) = CallRemote p # own es"
  by (simp_all add: own_def)

lemma own_append: "LoopStart \<notin> set es1 \<Longrightarrow> own (es1 @ es2) = es1 @ own es2"
  by (induction es1) (auto simp: own_def)

lemma own_quiet: "LoopStart \<notin> set es \<Longrightarrow> own es = es"
  using own_append [of es "[]"] by simp

lemma try_bind_quiet:
  assumes "try_bind cfg env st = (r, st1)"
  shows "\<exists>es. trace st1 = trace st @ es \<and> LoopStart \<notin> set es \<and> filter is_send es = []"
  using assms
  by (auto simp: try_bind_def Let_def split: option.splits if_splits)

lemma connect_loop_quiet:
  assumes "connect_loop cfg env a st = (r, st')"
  shows "\<exists>es. trace st' = trace st @ es \<and> LoopStart \<notin> set es \<and> filter is_send es = []"
  using assms
proof (induction cfg env a st arbitrary: r st' rule: connect_loop.induct)
  case (1 cfg env a st)
  show ?case
  proof (cases "dgram st = None \<and> a \<le> MAX_CONNECT_ATTEMPT cfg
                 \<and> int (error_count st) < MAX_ERROR_COUNT cfg")
    case False
    with "1.prems" have "st' = st"
      by (auto simp: connect_loop.simps [of cfg env a st])
    then show ?thesis by simp
  next
    case guard: True
    obtain rb st1 where tb: "try_bind cfg env st = (rb, st1)" by (cases "try_bind cfg env st")
    from try_bind_quiet [OF tb] obtain es1 where
      es1: "trace st1 = trace st @ es1" "LoopStart \<notin> set es1" "filter is_send es1 = []"
      by blast
    show ?thesis
    proof (cases rb)
      case (Some e)
      with "1.prems" guard tb have "st' = st1"
        by (auto simp: connect_loop.simps [of cfg env a st])
      with es1 show ?thesis by blast
    next
      case None
      obtain rs st2 where sl: "sleep env 5 st1 = (rs, st2)" by (cases "sleep env 5 st1")
      note s2 = sleep_events [OF sl]
      show ?thesis
      proof (cases rs)
        case (Some e)
        with "1.prems" guard tb None sl have "st' = st2"
          by (auto simp: connect_loop.simps [of cfg env a st])
        with es1 s2 show ?thesis
          by (intro exI [of _ "es1 @ [Sleep 5]"]) auto
      next
        case rsNone: None
        with "1.prems" guard tb None sl have rec: "connect_loop cfg env (a + 1) st2 = (r, st')"
          by (auto simp: connect_loop.simps [of cfg env a st])
        from "1.IH" [OF guard tb [symmetric] None sl [symmetric] rsNone rec]
        obtain es2 where
          es2: "trace st' = trace st2 @ es2" "LoopStart \<notin> set es2" "filter is_send es2 = []"
          by blast
        show ?thesis
          using es1 s2 es2
          by (intro exI [of _ "es1 @ [Sleep 5] @ es2"]) auto
      qed
    qed
  qed
qed

lemma connect_own_quiet:
  assumes "marks lp" "connect cfg env lp st = (r, st')"
  shows "\<exists>es. trace st' = trace st @ es \<and> filter is_send (own es) = []"
proof -
  obtain r1 st1 where cl: "connect_loop cfg env 1 st = (r1, st1)"
    by (cases "connect_loop cfg env 1 st")
  from connect_loop_quiet [OF cl] obtain es1 where
    es1: "trace st1 = trace st @ es1" "LoopStart \<notin> set es1" "filter is_send es1 = []" by blast
  obtain r2 st2 where l: "lp st1 = (r2, st2)" by (cases "lp st1")
  from marksD [OF assms(1) l] obtain es2 where es2: "trace st2 = trace st1 @ LoopStart # es2"
    by blast
  from assms(2) cl l have "st' = st1 \<or> st' = st2"
    by (auto simp: connect_def split: option.splits if_splits sum.splits)
  then show ?thesis
  proof
    assume "st' = st1"
    with es1 show ?thesis by (intro exI [of _ es1]) (simp add: own_quiet)
  next
    assume "st' = st2"
    with es1 es2 show ?thesis
      by (intro exI [of _ "es1 @ LoopStart # es2"]) (simp add: own_append)
  qed
qed

lemma transmit_events:
  assumes "transmit cfg env d a st = (r, st1)"
  shows "\<exists>es. trace st1 = trace st @ es \<and> LoopStart \<notin> set es \<and> length (filter is_send es) \<le> 1"
  using assms
  by (auto simp: transmit_def Let_def split: option.splits if_splits)

lemma send_data_loop_events:
  assumes "marks lp" "send_data_loop cfg env lp d a bt sent k st = (r, st')"
  shows "\<exists>es. trace st' = trace st @ es
           \<and> int (length (filter is_send (own es))) \<le> max 0 (SEND_DATA_RETRIES + 1 - k)"
  using assms
proof (induction cfg env lp d a bt sent k st arbitrary: r st' rule: send_data_loop.induct)
  case (1 cfg env lp d a bt sent k st)
  note simps = send_data_loop.simps [of cfg env lp d a bt sent k st]
  note mk = "1.prems"(1)
  note run = "1.prems"(2) [unfolded simps]
  show ?case
  proof (cases "\<not> sent \<and> k \<le> SEND_DATA_RETRIES")
    case False
    with run have "st' = st" by (auto simp: simps)
    then show ?thesis by (intro exI [of _ "[]"]) simp
  next
    case guard: True
    show ?thesis
    proof (cases "dgram st = None")
      case True
      obtain rc stc where c: "connect cfg env lp st = (rc, stc)" by (cases "connect cfg env lp st")
      have "rc \<noteq> Some (Inr ())" using connect_never_returns [OF c] .
      with run guard True c have "st' = stc"
        by (auto simp: simps split: option.splits sum.splits)
      with connect_own_quiet [OF mk c] show ?thesis
        by auto
    next
      case held: False
      obtain rt st2 where t: "transmit cfg env d a st = (rt, st2)"
        by (cases "transmit cfg env d a st")
      from transmit_events [OF t] obtain es1 where
        es1: "trace st2 = trace st @ es1" "LoopStart \<notin> set es1" "length (filter is_send es1) \<le> 1"
        by blast
      show ?thesis
      proof (cases rt)
        case (Inl e)
        with run guard held t have "st' = st2" by (auto simp: simps)
        with es1 guard show ?thesis
          by (intro exI [of _ es1]) (simp add: own_quiet)
      next
        case (Inr sent')
        obtain rs st3 where sl: "sleep env (max bt (1 / 10)) st2 = (rs, st3)"
          by (cases "sleep env (max bt (1 / 10)) st2")
        note s3 = sleep_events [OF sl]
        show ?thesis
        proof (cases rs)
          case (Some e)
          with run guard held t Inr sl have "st' = st3" by (auto simp: simps)
          with es1 s3 guard show ?thesis
            by (intro exI [of _ "es1 @ [Sleep (max bt (1 / 10))]"]) (simp add: own_quiet)
        next
          case None
          with run guard held t Inr sl
          have rec: "send_data_loop cfg env lp d a bt sent' (k + 1) st3 = (r, st')"
            by (auto simp: simps)
          have "(if dgram st = None then connect cfg env lp st else (Some (Inr ()), st))
                  = (Some (Inr ()), st)"
            using held by auto
          from "1.IH" [OF guard this [symmetric] refl refl t [symmetric] Inr sl [symmetric] None mk rec]
          obtain es2 where
            es2: "trace st' = trace st3 @ es2"
              "int (length (filter is_send (own es2))) \<le> max 0 (SEND_DATA_RETRIES + 1 - (k + 1))"
            by (elim exE conjE) (rule that)
          show ?thesis
            using es1 s3 es2 guard
            by (intro exI [of _ "es1 @ [Sleep (max bt (1 / 10))] @ es2"])
               (simp add: own_append)
        qed
      qed
    qed
  qed
qed

lemma send_data_state:
  "snd (send_data cfg env lp d a bt st) = snd (send_data_loop cfg env lp d a bt False 1 st)"
  by (cases "send_data_loop cfg env lp d a bt False 1 st")
     (auto simp: send_data_def split: option.splits sum.splits)

lemma send_data_events:
  assumes "marks lp" "send_data cfg env lp d a bt st = (r, st')"
  shows "\<exists>es. trace st' = trace st @ es \<and> length (filter is_send (own es)) \<le> 3"
proof -
  obtain r1 where l: "send_data_loop cfg env lp d a bt False 1 st = (r1, st')"
    using assms(2) send_data_state [of cfg env lp d a bt st]
    by (cases "send_data_loop cfg env lp d a bt False 1 st") auto
  from send_data_loop_events [OF assms(1) l] show ?thesis
    by (auto simp: SEND_DATA_RETRIES_def)
qed

lemma send_data_grows:
  assumes "marks lp" "send_data cfg env lp d a bt st = (r, st')"
  shows "\<exists>es. trace st' = trace st @ es"
  using send_data_events [OF assms] by blast

lemma report_oserror_grows:
  assumes "report_oserror cfg env side dest e st = (r, st')"
  shows "\<exists>es. trace st' = trace st @ es"
  using assms
  by (auto simp: report_oserror_def call_local_def split: option.splits sum.splits)

lemma forward_local_grows:
  assumes "marks lp" "forward_local cfg env lp d st = (r, st')"
  shows "\<exists>es. trace st' = trace st @ es"
proof -
  obtain rl st1 where cl: "call_local env d st = (rl, st1)" by (cases "call_local env d st")
  then have t1: "trace st1 = trace st @ [CallLocal d]" by (auto simp: call_local_def)
  show ?thesis
  proof (cases rl)
    case (Inl e)
    with assms(2) cl have "st' = st1" by (simp add: forward_local_def)
    with t1 show ?thesis by simp
  next
    case (Inr d')
    show ?thesis
    proof (cases "ignore_remote cfg")
      case True
      with assms(2) cl Inr have "st' = st1" by (simp add: forward_local_def)
      with t1 show ?thesis by simp
    next
      case False
      obtain rs st2 where sd: "send_data cfg env lp d' (enelx_addr cfg) (1 / 10) st1 = (rs, st2)"
        by (cases "send_data cfg env lp d' (enelx_addr cfg) (1 / 10) st1")
      from send_data_grows [OF assms(1) sd] obtain es2 where es2: "trace st2 = trace st1 @ es2"
        by blast
      have "st' = st2 \<or> (\<exists>e. report_oserror cfg env ''server'' (Some (enelx_addr cfg)) e st2 = (r, st'))"
        using assms(2) cl Inr False sd
        by (auto simp: forward_local_def split: option.splits sum.splits if_splits)
      then show ?thesis
        using t1 es2 report_oserror_grows by (metis append.assoc)
    qed
  qed
qed

lemma forward_remote_grows:
  assumes "marks lp" "forward_remote cfg env lp d st = (r, st')"
  shows "\<exists>es. trace st' = trace st @ es"
proof (cases "ignore_remote cfg")
  case True
  with assms(2) show ?thesis by (simp add: forward_remote_def)
next
  case False
  obtain rl st1 where cl: "call_remote env d st = (rl, st1)" by (cases "call_remote env d st")
  then have t1: "trace st1 = trace st @ [CallRemote d]" by (auto simp: call_remote_def)
  show ?thesis
  proof (cases rl)
    case (Inl e)
    with assms(2) cl False have "st' = st1" by (simp add: forward_remote_def)
    with t1 show ?thesis by simp
  next
    case (Inr d')
    show ?thesis
    proof (cases "juicebox_addr st1")
      case None
      with assms(2) cl Inr False have "st' = st1" by (simp add: forward_remote_def)
      with t1 show ?thesis by simp
    next
      case (Some dev)
      obtain rs st2 where sd: "send_data cfg env lp d' dev (1 / 10) st1 = (rs, st2)"
        by (cases "send_data cfg env lp d' dev (1 / 10) st1")
      from send_data_grows [OF assms(1) sd] obtain es2 where es2: "trace st2 = trace st1 @ es2"
        by blast
      have "st' = st2 \<or> (\<exists>e. report_oserror cfg env ''client'' (juicebox_addr st2) e st2 = (r, st'))"
        using assms(2) cl Inr False Some sd
        by (auto simp: forward_remote_def split: option.splits sum.splits if_splits)
      then show ?thesis
        using t1 es2 report_oserror_grows by (metis append.assoc)
    qed
  qed
qed

lemma main_mitm_handler_grows:
  assumes "marks lp" "main_mitm_handler cfg env lp st data from_addr = (r, st')"
  shows "\<exists>es. trace st' = trace st @ es"
proof (cases data)
  case None
  with assms(2) show ?thesis by (simp add: main_mitm_handler_def)
next
  case (Some d)
  show ?thesis
  proof (cases from_addr)
    case None
    with assms(2) Some show ?thesis by (simp add: main_mitm_handler_def)
  next
    case a: (Some a)
    define st1 where "st1 = (if fst a \<noteq> fst (enelx_addr cfg) then st\<lparr>juicebox_addr := Some a\<rparr> else st)"
    have t1: "trace st1 = trace st" by (simp add: st1_def)
    have "forward_local cfg env lp d st1 = (r, st') \<or> forward_remote cfg env lp d st1 = (r, st')
          \<or> st' = st1"
      using assms(2) Some a
      by (auto simp: main_mitm_handler_def Let_def st1_def split: if_splits)
    then show ?thesis
      using forward_local_grows [OF assms(1)] forward_remote_grows [OF assms(1)] t1
      by (metis append_Nil2)
  qed
qed

lemma mitm_while_grows: "\<exists>es. trace (snd (mitm_while cfg env n st)) = trace st @ es"
proof (induction n arbitrary: st)
  case 0
  show ?case by simp
next
  case (Suc n)
  define lp where "lp = (\<lambda>s. mitm_while cfg env n (s\<lparr>trace := trace s @ [LoopStart]\<rparr>))"
  have mk: "marks lp"
    unfolding marks_def lp_def
  proof
    fix s
    from Suc [of "s\<lparr>trace := trace s @ [LoopStart]\<rparr>"]
    show "\<exists>es. trace (snd (mitm_while cfg env n (s\<lparr>trace := trace s @ [LoopStart]\<rparr>)))
            = trace s @ LoopStart # es"
      by auto
  qed
  have ih: "\<exists>es'. trace (snd (mitm_while cfg env n s)) = trace st @ es'"
    if "trace s = trace st @ es" for s es
    using Suc that by (metis append.assoc)
  show ?case
  proof (cases "int (error_count st) < MAX_ERROR_COUNT cfg")
    case False
    then show ?thesis by simp
  next
    case guard: True
    show ?thesis
    proof (cases "dgram st")
      case None
      obtain rc st1 where c: "connect cfg env lp (add_error cfg env st) = (rc, st1)"
        by (cases "connect cfg env lp (add_error cfg env st)")
      from connect_own_quiet [OF mk c] obtain es1 where
        "trace st1 = trace (add_error cfg env st) @ es1" by blast
      then have es1: "trace st1 = trace st @ Fault # es1" by simp
      have "rc \<noteq> Some (Inr ())" using connect_never_returns [OF c] .
      then have "mitm_while cfg env (Suc n) st = (rc, st1)"
        using guard None c by (auto simp: lp_def split: option.splits sum.splits)
      with es1 show ?thesis by simp
    next
      case (Some sk)
      obtain rr st1 where rv: "recv env st = (rr, st1)" by (cases "recv env st")
      then have t1: "trace st1 = trace st @ [Recv]" by (auto simp: recv_def)
      show ?thesis
      proof (cases rr)
        case (Inl e)
        show ?thesis
        proof (cases "e = TransportClosed \<or> e = TimeoutError")
          case True
          have "mitm_while cfg env (Suc n) st =
                  mitm_while cfg env n ((add_error cfg env st1)\<lparr>dgram := None\<rparr>)"
            using guard Some rv Inl True by auto
          moreover have "trace ((add_error cfg env st1)\<lparr>dgram := None\<rparr>) = trace st @ [Recv, Fault]"
            using t1 by simp
          ultimately show ?thesis using ih by metis
        next
          case False
          then have "mitm_while cfg env (Suc n) st = (Some (Inl e), st1)"
            using guard Some rv Inl by auto
          with t1 show ?thesis by simp
        qed
      next
        case (Inr dr)
        obtain data remote_addr where dr: "dr = (data, remote_addr)" by (cases dr)
        obtain rh st2 where
          h: "main_mitm_handler cfg env lp st1 data remote_addr = (rh, st2)"
          by (cases "main_mitm_handler cfg env lp st1 data remote_addr")
        from main_mitm_handler_grows [OF mk h] t1 obtain es2 where
          es2: "trace st2 = trace st @ es2" by (metis append.assoc)
        show ?thesis
        proof (cases rh)
          case None
          then have "mitm_while cfg env (Suc n) st = (None, st2)"
            using guard Some rv Inr dr h by (auto simp: lp_def)
          with es2 show ?thesis by simp
        next
          case rh: (Some x)
          show ?thesis
          proof (cases x)
            case (Inr u)
            then have "mitm_while cfg env (Suc n) st = mitm_while cfg env n st2"
              using guard Some rv \<open>rr = Inr dr\<close> dr h rh by (auto simp: lp_def)
            with es2 ih show ?thesis by metis
          next
            case (Inl e)
            obtain e' st3 where x: "handler_timeout_exit env e st2 = (e', st3)"
              by (cases "handler_timeout_exit env e st2")
            then have t3: "trace st3 = trace st @ es2"
              using es2 by (auto simp: handler_timeout_exit_def split: if_splits)
            show ?thesis
            proof (cases "e' = TimeoutError")
              case True
              have "mitm_while cfg env (Suc n) st =
                      mitm_while cfg env n ((add_error cfg env st3)\<lparr>dgram := None\<rparr>)"
                using guard Some rv \<open>rr = Inr dr\<close> dr h rh Inl x True by (auto simp: lp_def)
              moreover have "trace ((add_error cfg env st3)\<lparr>dgram := None\<rparr>) = trace st @ es2 @ [Fault]"
                using t3 by simp
              ultimately show ?thesis using ih by metis
            next
              case False
              then have "mitm_while cfg env (Suc n) st = (Some (Inl e'), st3)"
                using guard Some rv \<open>rr = Inr dr\<close> dr h rh Inl x by (auto simp: lp_def)
              with t3 show ?thesis by simp
            qed
          qed
        qed
      qed
    qed
  qed
qed

lemma mitm_loop_marks: "marks (mitm_loop cfg env fuel)"
  unfolding marks_def mitm_loop_def
proof
  fix s
  from mitm_while_grows [of cfg env fuel "s\<lparr>trace := trace s @ [LoopStart]\<rparr>"]
  show "\<exists>es. trace (snd (mitm_while cfg env fuel (s\<lparr>trace := trace s @ [LoopStart]\<rparr>)))
          = trace s @ LoopStart # es"
    by auto
qed

text \<open>
  The loop of lines 63 to 86 alone.  Started with its counter at 1, it calls \<open>bind\<close> at
  most \<open>MAX_CONNECT_ATTEMPT\<close> times, and not at all when a socket is held or the fault
  count has reached \<open>MAX_ERROR_COUNT\<close>.  When a bind can only succeed or fail with an
  \<open>OSError\<close> and no sleep is interrupted, the loop ends normally, every bind is
  followed by one sleep of 5 seconds, every failed bind records one fault, and a loop
  that ends without a socket and within the error budget has used all its attempts.
  After a loop that ended normally, \<open>_connect\<close> raises "unable to start" when no
  socket is held, and otherwise goes on to the receive loop, whose outcome is its own.
\<close>

theorem connect_attempts_bounded:
  assumes "connect_loop cfg env 1 st = (r, st')"
  shows "\<exists>es. trace st' = trace st @ es
           \<and> int (length (filter is_bind es)) \<le> max 0 (MAX_CONNECT_ATTEMPT cfg)
           \<and> (\<not> (dgram st = None \<and> int (error_count st) < MAX_ERROR_COUNT cfg) \<longrightarrow>
                es = [] \<and> r = None)
           \<and> ((\<forall>n. oserror_or_ok (bind_res env n)) \<and> (\<forall>n. sleep_res env n = None) \<longrightarrow>
                r = None
                \<and> filter is_sleep es = replicate (length (filter is_bind es)) (Sleep 5)
                \<and> (dgram st = None \<longrightarrow>
                     length (filter is_bind es) =
                       length (filter is_fault es) + (if dgram st' = None then 0 else 1))
                \<and> (dgram st' = None \<and> int (error_count st') < MAX_ERROR_COUNT cfg \<longrightarrow>
                     int (length (filter is_bind es)) = max 0 (MAX_CONNECT_ATTEMPT cfg)))
           \<and> (r = None \<and> dgram st' = None \<longrightarrow>
                connect cfg env lp st = (Some (Inl (ChildProcessError Unable_to_start)), st'))
           \<and> (r = None \<and> dgram st' \<noteq> None \<longrightarrow>
                connect cfg env lp st =
                  (case lp st' of
                     (Some (Inr u), st2) \<Rightarrow> (Some (Inl (Exception ''TypeError'')), st2)
                   | (x, st2) \<Rightarrow> (x, st2)))
           \<and> (\<forall>e. r = Some e \<longrightarrow> connect cfg env lp st = (Some (Inl e), st'))"
proof -
  from connect_loop_events [OF assms] obtain es where
    es: "trace st' = trace st @ es"
      "int (length (filter is_bind es)) \<le> max 0 (MAX_CONNECT_ATTEMPT cfg + 1 - 1)"
      "(\<forall>n. oserror_or_ok (bind_res env n)) \<and> (\<forall>n. sleep_res env n = None) \<longrightarrow>
                r = None
                \<and> filter is_sleep es = replicate (length (filter is_bind es)) (Sleep 5)
                \<and> (dgram st = None \<longrightarrow>
                     length (filter is_bind es) =
                       length (filter is_fault es) + (if dgram st' = None then 0 else 1))
                \<and> (dgram st' = None \<and> int (error_count st') < MAX_ERROR_COUNT cfg \<longrightarrow>
                     int (length (filter is_bind es)) = max 0 (MAX_CONNECT_ATTEMPT cfg + 1 - 1))"
    by (elim exE conjE) (rule that, assumption+)
  have stop: "\<not> (dgram st = None \<and> int (error_count st) < MAX_ERROR_COUNT cfg) \<longrightarrow>
                es = [] \<and> r = None"
    using assms es(1) by (auto simp: connect_loop.simps [of cfg env 1 st])
  have c1: "r = None \<and> dgram st' = None \<longrightarrow>
              connect cfg env lp st = (Some (Inl (ChildProcessError Unable_to_start)), st')"
    using assms by (simp add: connect_def)
  have c2: "r = None \<and> dgram st' \<noteq> None \<longrightarrow>
              connect cfg env lp st =
                (case lp st' of
                   (Some (Inr u), st2) \<Rightarrow> (Some (Inl (Exception ''TypeError'')), st2)
                 | (x, st2) \<Rightarrow> (x, st2))"
    using assms by (auto simp: connect_def split: prod.splits option.splits sum.splits)
  have c3: "\<forall>e. r = Some e \<longrightarrow> connect cfg env lp st = (Some (Inl e), st')"
    using assms by (simp add: connect_def)
  show ?thesis
    using es stop c1 c2 c3 by (intro exI [of _ es]) simp
qed

lemma bind_fails_run:
  "connect_loop sample_cfg bind_fails_env 1 init =
     (None, \<lparr>dgram = None, juicebox_addr = None, error_count = 3,
             error_timestamp_list = [0, 0, 0], tick = 15,
             trace = [Bind True, Fault, Sleep 5, Bind True, Fault, Sleep 5,
                      Bind True, Fault, Sleep 5]\<rparr>)"
  by (simp add: connect_loop.simps try_bind_def sleep_def add_error_def Let_def
        sample_cfg_def bind_fails_env_def calm_env_def init_def)

theorem connect_attempts_bounded_witness:
  "connect sample_cfg bind_fails_env (mitm_loop sample_cfg bind_fails_env 0) init =
     (Some (Inl (ChildProcessError Unable_to_start)),
      \<lparr>dgram = None, juicebox_addr = None, error_count = 3,
       error_timestamp_list = [0, 0, 0], tick = 15,
       trace = [Bind True, Fault, Sleep 5, Bind True, Fault, Sleep 5,
                Bind True, Fault, Sleep 5]\<rparr>)
   \<and> (\<forall>n. oserror_or_ok (bind_res bind_fails_env n))
   \<and> (\<forall>n. sleep_res bind_fails_env n = None)"
proof -
  have "connect sample_cfg bind_fails_env (mitm_loop sample_cfg bind_fails_env 0) init =
     (Some (Inl (ChildProcessError Unable_to_start)),
      \<lparr>dgram = None, juicebox_addr = None, error_count = 3,
       error_timestamp_list = [0, 0, 0], tick = 15,
       trace = [Bind True, Fault, Sleep 5, Bind True, Fault, Sleep 5,
                Bind True, Fault, Sleep 5]\<rparr>)"
    using connect_attempts_bounded [OF bind_fails_run, of "mitm_loop sample_cfg bind_fails_env 0"]
    by (elim exE conjE) simp
  then show ?thesis
    by (simp add: oserror_or_ok_def bind_fails_env_def calm_env_def)
qed

text \<open>
  The test of line 63 is made before every attempt, whatever the counter: a loop whose
  test fails does nothing, and one whose test holds calls \<open>bind\<close> first.
\<close>

lemma connect_loop_stops:
  "\<not> (dgram st = None \<and> a \<le> MAX_CONNECT_ATTEMPT cfg \<and> int (error_count st) < MAX_ERROR_COUNT cfg)
     \<Longrightarrow> connect_loop cfg env a st = (None, st)"
  by (subst connect_loop.simps) auto

lemma connect_loop_binds:
  assumes "dgram st = None" "a \<le> MAX_CONNECT_ATTEMPT cfg"
    "int (error_count st) < MAX_ERROR_COUNT cfg"
  shows "\<exists>es. trace (snd (connect_loop cfg env a st))
           = trace st @ Bind (\<not> locked env (tick st)) # es"
proof -
  obtain rb st1 where tb: "try_bind cfg env st = (rb, st1)" by (cases "try_bind cfg env st")
  then obtain es1 where e1: "trace st1 = trace st @ Bind (\<not> locked env (tick st)) # es1"
    by (auto simp: try_bind_def Let_def split: option.splits if_splits)
  show ?thesis
  proof (cases rb)
    case (Some e)
    with assms tb e1 show ?thesis by (subst connect_loop.simps) auto
  next
    case None
    obtain rs st2 where sl: "sleep env 5 st1 = (rs, st2)" by (cases "sleep env 5 st1")
    then have e2: "trace st2 = trace st @ Bind (\<not> locked env (tick st)) # es1 @ [Sleep 5]"
      using e1 by (auto simp: sleep_def)
    show ?thesis
    proof (cases rs)
      case (Some e)
      with assms tb None sl e2 show ?thesis by (subst connect_loop.simps) auto
    next
      case rn: None
      obtain r3 st3 where c: "connect_loop cfg env (a + 1) st2 = (r3, st3)"
        by (cases "connect_loop cfg env (a + 1) st2")
      from connect_loop_grows [OF c] obtain es3 where "trace st3 = trace st2 @ es3" by blast
      with assms tb None sl rn c e2 show ?thesis
        by (subst connect_loop.simps) auto
    qed
  qed
qed

text \<open>
  C6, evaluated.  \<open>start\<close> on a fresh object with \<open>MAX_CONNECT_ATTEMPT\<close> 3: the
  first bind succeeds, the receive of the loop that line 90 awaits inside \<open>_connect\<close>
  times out, and from then on every bind fails with \<open>EADDRINUSE\<close>.  The loop of lines
  63 to 86 of this call is left after one bind with a socket held; the same call of
  \<open>_connect\<close> nevertheless ends in "unable to start", raised by the \<open>_connect\<close> that
  the receive loop called at line 100, after four binds in all.
\<close>

theorem nested_connect_fails_the_call:
  "connect_loop roomy_cfg rebind_fails_env 1 init =
     (None, \<lparr>dgram = Some (Sock 1), juicebox_addr = None, error_count = 0,
             error_timestamp_list = [], tick = 3, trace = [Bind True, Sleep 5]\<rparr>)
   \<and> connect roomy_cfg rebind_fails_env (mitm_loop roomy_cfg rebind_fails_env 2) init =
       (Some (Inl (ChildProcessError Unable_to_start)),
        \<lparr>dgram = None, juicebox_addr = None, error_count = 5,
         error_timestamp_list = [125, 125, 125, 130, 135], tick = 23,
         trace = [Bind True, Sleep 5, LoopStart, Recv, Fault, Fault,
                  Bind True, Fault, Sleep 5, Bind True, Fault, Sleep 5,
                  Bind True, Fault, Sleep 5]\<rparr>)
   \<and> MAX_CONNECT_ATTEMPT roomy_cfg = 3"
  by (simp add: mitm_loop_def numeral_2_eq_2 recv_def connect_def
        connect_loop.simps try_bind_def sleep_def
        add_error_def Let_def sample_cfg_def roomy_cfg_def rebind_fails_env_def calm_env_def
        init_def)

lemma send_data_loop_step:
  assumes "k \<le> SEND_DATA_RETRIES" "dgram s \<noteq> None"
  shows "send_data_loop cfg env lp d a bt False k s =
           (case transmit cfg env d a s of
              (Inl e, s2) \<Rightarrow> (Some (Inl e), s2)
            | (Inr sent', s2) \<Rightarrow>
                (case sleep env (max bt (1 / 10)) s2 of
                   (Some e, s3) \<Rightarrow> (Some (Inl e), s3)
                 | (None, s3) \<Rightarrow> send_data_loop cfg env lp d a bt sent' (k + 1) s3))"
  using assms by (subst send_data_loop.simps) auto

lemma send_data_loop_done:
  "send_data_loop cfg env lp d a bt True k s = (Some (Inr True), s)"
  by (subst send_data_loop.simps) simp

text \<open>
  The attempts of one call.  A call of \<open>send_data\<close> transmits at most \<open>SEND_DATA_RETRIES\<close> times itself.
  With no socket held it reconnects first (and the outcome of \<open>_connect\<close>, which never
  returns normally, is the outcome of the call).  In an attempt with a socket held: a
  closed transport records a fault, drops the socket, sleeps \<open>max blocking_time 0.1\<close>
  and goes to the next attempt; a timeout records a fault, sleeps and goes to the next
  attempt; a success sleeps and ends the loop.  A loop that ends without success raises
  "unable to send".
\<close>

theorem send_data_attempts:
  assumes "send_data cfg env (mitm_loop cfg env fuel) d a bt st = (r, st')"
  shows "(\<exists>es. trace st' = trace st @ es
            \<and> int (length (filter is_send (own es))) \<le> SEND_DATA_RETRIES)
         \<and> (dgram st = None \<longrightarrow> connect cfg env (mitm_loop cfg env fuel) st = (r, st'))
         \<and> (\<forall>k s. k \<le> SEND_DATA_RETRIES \<and> dgram s \<noteq> None \<longrightarrow>
               (let s1 = s\<lparr>tick := tick s + 1, trace := trace s @ [Send d a]\<rparr>;
                    closed = (add_error cfg env s1)\<lparr>dgram := None\<rparr>;
                    timed_out = add_error cfg env s1;
                    slept = (\<lambda>x. x\<lparr>tick := tick x + 1,
                                   trace := trace x @ [Sleep (max bt (1 / 10))]\<rparr>)
                in (send_res env (tick s) = Some TransportClosed
                      \<and> sleep_res env (tick closed) = None \<longrightarrow>
                    send_data_loop cfg env (mitm_loop cfg env fuel) d a bt False k s =
                      send_data_loop cfg env (mitm_loop cfg env fuel) d a bt False (k + 1)
                        (slept closed))
                 \<and> (send_res env (tick s) = Some TimeoutError
                      \<and> sleep_res env (tick timed_out) = None \<longrightarrow>
                    send_data_loop cfg env (mitm_loop cfg env fuel) d a bt False k s =
                      send_data_loop cfg env (mitm_loop cfg env fuel) d a bt False (k + 1)
                        (slept timed_out))
                 \<and> (send_res env (tick s) = None \<and> sleep_res env (tick s1) = None \<longrightarrow>
                    send_data_loop cfg env (mitm_loop cfg env fuel) d a bt False k s =
                      (Some (Inr True), slept s1))))
         \<and> (\<forall>s2. send_data_loop cfg env (mitm_loop cfg env fuel) d a bt False 1 st
                    = (Some (Inr False), s2) \<longrightarrow>
                  (r, st') = (Some (Inl (ChildProcessError Unable_to_send)), s2))
         \<and> (\<forall>s2. send_data_loop cfg env (mitm_loop cfg env fuel) d a bt False 1 st
                    = (Some (Inr True), s2) \<longrightarrow>
                  (r, st') = (Some (Inr ()), s2))"
proof -
  let ?lp = "mitm_loop cfg env fuel"
  have p1: "\<exists>es. trace st' = trace st @ es
              \<and> int (length (filter is_send (own es))) \<le> SEND_DATA_RETRIES"
    using send_data_events [OF mitm_loop_marks assms] by (auto simp: SEND_DATA_RETRIES_def)
  have p2: "dgram st = None \<longrightarrow> connect cfg env ?lp st = (r, st')"
  proof
    assume none: "dgram st = None"
    obtain rc stc where c: "connect cfg env ?lp st = (rc, stc)"
      by (cases "connect cfg env ?lp st")
    have nr: "rc \<noteq> Some (Inr ())" using connect_never_returns [OF c] .
    have unf: "send_data_loop cfg env ?lp d a bt False 1 st =
                 (case rc of None \<Rightarrow> (None, stc) | Some (Inl e) \<Rightarrow> (Some (Inl e), stc)
                  | Some (Inr u) \<Rightarrow> (case transmit cfg env d a stc of
                (Inl e, st2) \<Rightarrow> (Some (Inl e), st2)
              | (Inr sent', st2) \<Rightarrow>
                  (case sleep env (max bt (1 / 10)) st2 of
                     (Some e, st3) \<Rightarrow> (Some (Inl e), st3)
                   | (None, st3) \<Rightarrow>
                       send_data_loop cfg env ?lp d a bt sent' (1 + 1) st3)))"
      using none c by (subst send_data_loop.simps) (simp add: SEND_DATA_RETRIES_def del: send_data_loop.simps)
    show "connect cfg env ?lp st = (r, st')"
    proof (cases rc)
      case None
      with unf assms c show ?thesis by (simp add: send_data_def del: send_data_loop.simps)
    next
      case (Some x)
      with nr obtain e where "x = Inl e" by (cases x) auto
      with Some unf assms c show ?thesis by (simp add: send_data_def del: send_data_loop.simps)
    qed
  qed
  have p3: "\<forall>k s. k \<le> SEND_DATA_RETRIES \<and> dgram s \<noteq> None \<longrightarrow>
               (let s1 = s\<lparr>tick := tick s + 1, trace := trace s @ [Send d a]\<rparr>;
                    closed = (add_error cfg env s1)\<lparr>dgram := None\<rparr>;
                    timed_out = add_error cfg env s1;
                    slept = (\<lambda>x. x\<lparr>tick := tick x + 1,
                                   trace := trace x @ [Sleep (max bt (1 / 10))]\<rparr>)
                in (send_res env (tick s) = Some TransportClosed
                      \<and> sleep_res env (tick closed) = None \<longrightarrow>
                    send_data_loop cfg env ?lp d a bt False k s =
                      send_data_loop cfg env ?lp d a bt False (k + 1) (slept closed))
                 \<and> (send_res env (tick s) = Some TimeoutError
                      \<and> sleep_res env (tick timed_out) = None \<longrightarrow>
                    send_data_loop cfg env ?lp d a bt False k s =
                      send_data_loop cfg env ?lp d a bt False (k + 1) (slept timed_out))
                 \<and> (send_res env (tick s) = None \<and> sleep_res env (tick s1) = None \<longrightarrow>
                    send_data_loop cfg env ?lp d a bt False k s =
                      (Some (Inr True), slept s1)))"
    by (auto simp: send_data_loop_step send_data_loop_done transmit_def sleep_def Let_def
          simp del: send_data_loop.simps)
  have p4: "\<forall>s2. send_data_loop cfg env ?lp d a bt False 1 st = (Some (Inr False), s2) \<longrightarrow>
                  (r, st') = (Some (Inl (ChildProcessError Unable_to_send)), s2)"
    using assms by (auto simp: send_data_def simp del: send_data_loop.simps)
  have p5: "\<forall>s2. send_data_loop cfg env ?lp d a bt False 1 st = (Some (Inr True), s2) \<longrightarrow>
                  (r, st') = (Some (Inr ()), s2)"
    using assms by (auto simp: send_data_def simp del: send_data_loop.simps)
  from p1 p2 p3 p4 p5 show ?thesis by (intro conjI)
qed

lemma three_timeouts_run:
  "send_data sample_cfg send_times_out_env lp (Bytes [1, 2]) (''cloud'', 8042) (1 / 10) connected =
     (Some (Inl (ChildProcessError Unable_to_send)),
      \<lparr>dgram = Some (Sock 0), juicebox_addr = None, error_count = 3,
       error_timestamp_list = [0, 0, 0], tick = 12,
       trace = [Send (Bytes [1, 2]) (''cloud'', 8042), Fault, Sleep (1 / 10),
                Send (Bytes [1, 2]) (''cloud'', 8042), Fault, Sleep (1 / 10),
                Send (Bytes [1, 2]) (''cloud'', 8042), Fault, Sleep (1 / 10)]\<rparr>)"
  by (simp add: send_data_def send_data_loop.simps SEND_DATA_RETRIES_def transmit_def sleep_def
        add_error_def Let_def sample_cfg_def send_times_out_env_def calm_env_def connected_def
        init_def)

theorem send_data_attempts_witness:
  "send_data sample_cfg send_times_out_env (mitm_loop sample_cfg send_times_out_env 0)
      (Bytes [1, 2]) (''cloud'', 8042) (1 / 10) connected =
     (Some (Inl (ChildProcessError Unable_to_send)),
      \<lparr>dgram = Some (Sock 0), juicebox_addr = None, error_count = 3,
       error_timestamp_list = [0, 0, 0], tick = 12,
       trace = [Send (Bytes [1, 2]) (''cloud'', 8042), Fault, Sleep (1 / 10),
                Send (Bytes [1, 2]) (''cloud'', 8042), Fault, Sleep (1 / 10),
                Send (Bytes [1, 2]) (''cloud'', 8042), Fault, Sleep (1 / 10)]\<rparr>)
   \<and> dgram connected \<noteq> None
   \<and> send_res send_times_out_env (tick connected) = Some TimeoutError
   \<and> sleep_res send_times_out_env (tick connected + 3) = None"
proof -
  have "dgram connected \<noteq> None"
    "send_res send_times_out_env (tick connected) = Some TimeoutError"
    "sleep_res send_times_out_env (tick connected + 3) = None"
    by (simp_all add: connected_def init_def send_times_out_env_def calm_env_def)
  then show ?thesis
    using send_data_attempts [OF three_timeouts_run
      [of "mitm_loop sample_cfg send_times_out_env 0"]] three_timeouts_run
    by (simp del: send_data_loop.simps)
qed

text \<open>
  Every attempt that finds no socket held starts with \<open>_connect\<close> (line 189), whose
  outcome ends the call; so does the attempt that follows a closed transport.
\<close>

lemma send_data_loop_reconnects_first:
  assumes "send_attempt \<le> SEND_DATA_RETRIES" "dgram st = None"
  shows "snd (send_data_loop cfg env lp d a bt False send_attempt st) = snd (connect cfg env lp st)"
    and "fst (send_data_loop cfg env lp d a bt False send_attempt st) =
           map_option (map_sum id (\<lambda>u. False)) (fst (connect cfg env lp st))"
    and "fst (send_data_loop cfg env lp d a bt False send_attempt st) \<noteq> Some (Inr b)"
proof -
  obtain rc stc where c: "connect cfg env lp st = (rc, stc)" by (cases "connect cfg env lp st")
  have nr: "rc \<noteq> Some (Inr ())" using connect_never_returns [OF c] .
  have u: "send_data_loop cfg env lp d a bt False send_attempt st =
          (case rc of None \<Rightarrow> (None, stc) | Some (Inl e) \<Rightarrow> (Some (Inl e), stc)
           | Some (Inr u) \<Rightarrow> (Some (Inr False), stc))"
    using assms c nr by (subst send_data_loop.simps) (auto split: option.splits sum.splits)
  show "snd (send_data_loop cfg env lp d a bt False send_attempt st) = snd (connect cfg env lp st)"
    using u c by (auto split: option.splits sum.splits)
  show "fst (send_data_loop cfg env lp d a bt False send_attempt st) =
           map_option (map_sum id (\<lambda>u. False)) (fst (connect cfg env lp st))"
    using u c by (auto split: option.splits sum.splits)
  show "fst (send_data_loop cfg env lp d a bt False send_attempt st) \<noteq> Some (Inr b)"
    using u nr by (auto split: option.splits sum.splits)
qed

lemma closed_transport_hands_over_to_connect:
  assumes "send_attempt < SEND_DATA_RETRIES" "dgram st \<noteq> None"
    and "send_res env (tick st) = Some TransportClosed"
    and "sleep_res env (tick st + 3) = None"
  shows "snd (send_data_loop cfg env lp d a bt False send_attempt st) =
           snd (connect cfg env lp
             ((add_error cfg env (st\<lparr>tick := tick st + 1, trace := trace st @ [Send d a]\<rparr>))
                \<lparr>dgram := None, tick := tick st + 4,
                  trace := trace st @ [Send d a, Fault, Sleep (max bt (1 / 10))]\<rparr>))"
    and "fst (send_data_loop cfg env lp d a bt False send_attempt st) =
           map_option (map_sum id (\<lambda>u. False)) (fst (connect cfg env lp
             ((add_error cfg env (st\<lparr>tick := tick st + 1, trace := trace st @ [Send d a]\<rparr>))
                \<lparr>dgram := None, tick := tick st + 4,
                  trace := trace st @ [Send d a, Fault, Sleep (max bt (1 / 10))]\<rparr>)))"
    and "fst (send_data_loop cfg env lp d a bt False send_attempt st) \<noteq> Some (Inr b)"
proof -
  let ?s = "(add_error cfg env (st\<lparr>tick := tick st + 1, trace := trace st @ [Send d a]\<rparr>))
                \<lparr>dgram := None, tick := tick st + 4,
                  trace := trace st @ [Send d a, Fault, Sleep (max bt (1 / 10))]\<rparr>"
  have step: "send_data_loop cfg env lp d a bt False send_attempt st =
                send_data_loop cfg env lp d a bt False (send_attempt + 1) ?s"
  proof -
    have le: "send_attempt \<le> SEND_DATA_RETRIES" using assms(1) by simp
    have sl: "sleep_res env (Suc (Suc (Suc (tick st)))) = None"
      using assms(4) by (simp add: eval_nat_numeral)
    show ?thesis
      using assms(2,3) sl
      by (auto simp: send_data_loop_step [OF le] transmit_def sleep_def Let_def eval_nat_numeral)
  qed
  have k: "send_attempt + 1 \<le> SEND_DATA_RETRIES" "dgram ?s = None" using assms(1) by simp_all
  from send_data_loop_reconnects_first [OF k, of cfg env lp d a bt] step
  show "snd (send_data_loop cfg env lp d a bt False send_attempt st) = snd (connect cfg env lp ?s)"
    and "fst (send_data_loop cfg env lp d a bt False send_attempt st) =
           map_option (map_sum id (\<lambda>u. False)) (fst (connect cfg env lp ?s))"
    and "fst (send_data_loop cfg env lp d a bt False send_attempt st) \<noteq> Some (Inr b)"
    by simp_all
qed

lemma watching_runs_on:
  "watching st \<Longrightarrow>
     fst (mitm_while sample_cfg healed_env n st) = None
     \<and> filter is_send (trace (snd (mitm_while sample_cfg healed_env n st))) =
         filter is_send (trace st)"
proof (induction n arbitrary: st)
  case 0
  then show ?case by (simp add: watching_def sample_cfg_def)
next
  case (Suc n)
  define st1 where "st1 = st\<lparr>tick := tick st + 1, trace := trace st @ [Recv]\<rparr>"
  have w1: "watching st1" using Suc.prems by (simp add: watching_def st1_def)
  have h: "main_mitm_handler sample_cfg healed_env lp st1 (Some (Bytes [9])) (Some (''cloud'', 8042)) =
             (Some (Inr ()), st1)" for lp
    using w1 by (simp add: main_mitm_handler_def watching_def sample_cfg_def)
  have "mitm_while sample_cfg healed_env (Suc n) st = mitm_while sample_cfg healed_env n st1"
    using Suc.prems
    by (auto simp: watching_def recv_def healed_env_def calm_env_def h [unfolded st1_def]
          st1_def sample_cfg_def main_mitm_handler_def)
  with Suc.IH [OF w1] show ?case by (simp add: st1_def)
qed

lemma healed_reconnect_runs_on:
  assumes "dgram st = None" "juicebox_addr st = None" "error_count st < 3"
  shows "fst (connect sample_cfg healed_env (mitm_loop sample_cfg healed_env fuel) st) = None"
    and "filter is_send (trace (snd (connect sample_cfg healed_env
           (mitm_loop sample_cfg healed_env fuel) st))) = filter is_send (trace st)"
proof -
  define sc where "sc = st\<lparr>tick := tick st + 3, trace := trace st @ [Bind True, Sleep 5],
                        dgram := Some (Sock (tick st + 1))\<rparr>"
  have cl: "connect_loop sample_cfg healed_env 1 st = (None, sc)"
    using assms
    by (simp add: connect_loop.simps [of _ _ 1] connect_loop.simps [of _ _ 2] try_bind_def
          sleep_def Let_def sample_cfg_def healed_env_def calm_env_def sc_def)
  have w: "watching (sc\<lparr>trace := trace sc @ [LoopStart]\<rparr>)"
    using assms by (simp add: watching_def sc_def)
  note r = watching_runs_on [OF w, of fuel]
  have c: "connect sample_cfg healed_env (mitm_loop sample_cfg healed_env fuel) st =
             mitm_while sample_cfg healed_env fuel (sc\<lparr>trace := trace sc @ [LoopStart]\<rparr>)"
    using cl r
    by (cases "mitm_while sample_cfg healed_env fuel (sc\<lparr>trace := trace sc @ [LoopStart]\<rparr>)")
       (auto simp: connect_def mitm_loop_def sc_def)
  show "fst (connect sample_cfg healed_env (mitm_loop sample_cfg healed_env fuel) st) = None"
    using c r by simp
  show "filter is_send (trace (snd (connect sample_cfg healed_env
           (mitm_loop sample_cfg healed_env fuel) st))) = filter is_send (trace st)"
    using c r by (simp add: sc_def)
qed

lemma send_data_unfinished:
  "fst (send_data_loop cfg env lp d a bt False 1 st) = None
     \<Longrightarrow> fst (send_data cfg env lp d a bt st) = None"
  by (cases "send_data_loop cfg env lp d a bt False 1 st")
     (auto simp: send_data_def)

text \<open>
  C5, evaluated.  \<open>send_data\<close> on a relay that holds a socket: the first transmission
  finds the transport closed, every later transmission would succeed, every bind
  succeeds and the cloud keeps sending datagrams.  The second attempt starts with
  \<open>_connect\<close> (line 189), which binds and then awaits the receive loop (line 90):
  whatever number of steps that loop is given, the call has not returned, and the
  datagram has been transmitted once and never again.
\<close>

theorem closed_transport_is_never_resent:
  "fst (send_data sample_cfg healed_env (mitm_loop sample_cfg healed_env fuel)
          (Bytes [1, 2]) (''cloud'', 8042) (1 / 10) connected) = None
   \<and> filter is_send (trace (snd (send_data sample_cfg healed_env
          (mitm_loop sample_cfg healed_env fuel) (Bytes [1, 2]) (''cloud'', 8042) (1 / 10)
          connected))) = [Send (Bytes [1, 2]) (''cloud'', 8042)]
   \<and> send_res healed_env (Suc n) = None"
proof -
  let ?lp = "mitm_loop sample_cfg healed_env fuel"
  let ?d = "Bytes [1, 2]" and ?a = "(''cloud'', 8042) :: addr"
  let ?s = "(add_error sample_cfg healed_env
              (connected\<lparr>tick := tick connected + 1, trace := trace connected @ [Send ?d ?a]\<rparr>))
             \<lparr>dgram := None, tick := tick connected + 4,
               trace := trace connected @ [Send ?d ?a, Fault, Sleep (max (1 / 10) (1 / 10))]\<rparr>"
  have pre: "1 < SEND_DATA_RETRIES" "dgram connected \<noteq> None"
    "send_res healed_env (tick connected) = Some TransportClosed"
    "sleep_res healed_env (tick connected + 3) = None"
    by (simp_all add: SEND_DATA_RETRIES_def connected_def init_def healed_env_def calm_env_def)
  note h = closed_transport_hands_over_to_connect [OF pre, of sample_cfg ?lp ?d ?a "1 / 10"]
  have s: "dgram ?s = None" "juicebox_addr ?s = None" "error_count ?s < 3"
    "filter is_send (trace ?s) = [Send ?d ?a]"
    by (simp_all add: connected_def init_def add_error_def Let_def)
  note c = healed_reconnect_runs_on [OF s(1-3), of fuel]
  have "fst (send_data_loop sample_cfg healed_env ?lp ?d ?a (1 / 10) False 1 connected) = None"
    using h(2) c(1) by simp
  then have f: "fst (send_data sample_cfg healed_env ?lp ?d ?a (1 / 10) connected) = None"
    by (rule send_data_unfinished)
  have t: "filter is_send (trace (snd (send_data sample_cfg healed_env ?lp ?d ?a (1 / 10)
             connected))) = [Send ?d ?a]"
    unfolding send_data_state h(1) using c(2) s(4) by simp
  from f t show ?thesis by (simp add: healed_env_def calm_env_def)
qed

text \<open>
  The \<open>ChildProcessError\<close> of \<open>send_data\<close> is an \<open>OSError\<close> without an \<open>errno\<close>:
  the handler's \<open>except OSError\<close> catches it, and formatting the warning raises a
  \<open>KeyError\<close> before anything is reported or recorded.  This holds for the
  "unable to start" that a \<open>_connect\<close> called from \<open>send_data\<close> raises as well.
\<close>

lemma forward_local_fatal:
  assumes "\<not> ignore_remote cfg"
    and "call_local env d st = (Inr d', st1)"
    and "send_data cfg env lp d' (enelx_addr cfg) (1 / 10) st1 = (Some (Inl (ChildProcessError m)), st2)"
  shows "forward_local cfg env lp d st = (Some (Inl KeyError), st2)"
  using assms by (simp add: forward_local_def report_oserror_def)

section \<open>The error budget\<close>

lemma record_faults_tick [simp]: "tick (record_faults cfg env n st) = tick st + 2 * n"
  by (induction n) simp_all

lemma record_faults_count:
  "0 < n \<Longrightarrow> error_count (record_faults cfg env n st) =
     length (error_timestamp_list (record_faults cfg env n st))"
  by (cases n) simp_all

lemma record_faults_list:
  assumes "error_timestamp_list st = []"
  shows "error_timestamp_list (record_faults cfg env n st) =
           map (stamp env st)
             (filter (\<lambda>i. \<forall>j. i \<le> j \<and> j < n \<longrightarrow> cutoff cfg env st j < stamp env st i) [0..<n])"
proof (induction n)
  case 0
  show ?case using assms by simp
next
  case (Suc n)
  have "error_timestamp_list (record_faults cfg env (Suc n) st) =
          filter (\<lambda>el. cutoff cfg env st n < el)
            (error_timestamp_list (record_faults cfg env n st) @ [stamp env st n])"
    by (simp add: add_error_def Let_def cutoff_def stamp_def window_def)
  also have "\<dots> = map (stamp env st)
      (filter (\<lambda>i. cutoff cfg env st n < stamp env st i)
         (filter (\<lambda>i. \<forall>j. i \<le> j \<and> j < n \<longrightarrow> cutoff cfg env st j < stamp env st i) [0..<n] @ [n]))"
    by (simp add: Suc filter_map comp_def)
  also have "\<dots> = map (stamp env st)
      (filter (\<lambda>i. \<forall>j. i \<le> j \<and> j < Suc n \<longrightarrow> cutoff cfg env st j < stamp env st i) [0..<Suc n])"
  proof -
    have "filter (\<lambda>i. cutoff cfg env st n < stamp env st i)
            (filter (\<lambda>i. \<forall>j. i \<le> j \<and> j < n \<longrightarrow> cutoff cfg env st j < stamp env st i) [0..<n]) =
          filter (\<lambda>i. \<forall>j. i \<le> j \<and> j < Suc n \<longrightarrow> cutoff cfg env st j < stamp env st i) [0..<n]"
      unfolding filter_filter
      by (rule filter_cong) (auto simp: less_Suc_eq)
    then show ?thesis by (auto simp: less_Suc_eq_le)
  qed
  finally show ?case .
qed

lemma mitm_while_tripped:
  assumes "MAX_ERROR_COUNT cfg \<le> int (error_count st)"
  shows "mitm_while cfg env fuel st =
           (Some (Inl (ChildProcessError
              (More_than_errors (error_count st) (ERROR_LOOKBACK_MIN cfg)))), st)"
  using assms by (cases fuel) simp_all

text \<open>
  The fault record and the loop's test.  Start from an empty fault record and record
  \<open>n\<close> faults.  If \<open>n\<close> is at least
  \<open>MAX_ERROR_COUNT\<close> and every fault is still inside the window at every later
  pruning, all \<open>n\<close> are counted and the receive loop, at its next test, raises the
  fatal failure.  If at every pruning fewer than \<open>MAX_ERROR_COUNT\<close> of the faults made
  so far are inside the window, the count stays below the maximum after every fault,
  and the loop's test lets it go on.
\<close>

theorem error_window_trips_the_loop:
  assumes "error_timestamp_list st = []" and "error_count st = 0"
  shows "(0 < n \<and> MAX_ERROR_COUNT cfg \<le> int n
            \<and> (\<forall>i < n. \<forall>j < n. i \<le> j \<longrightarrow> cutoff cfg env st j < stamp env st i) \<longrightarrow>
          error_timestamp_list (record_faults cfg env n st) = map (stamp env st) [0..<n]
          \<and> error_count (record_faults cfg env n st) = n
          \<and> mitm_while cfg env fuel (record_faults cfg env n st) =
              (Some (Inl (ChildProcessError (More_than_errors n (ERROR_LOOKBACK_MIN cfg)))),
               record_faults cfg env n st))
       \<and> ((\<forall>k < n. int (length (filter (\<lambda>i. cutoff cfg env st k < stamp env st i) [0..<Suc k]))
                      < MAX_ERROR_COUNT cfg) \<longrightarrow>
          (\<forall>k. 0 < k \<and> k \<le> n \<longrightarrow>
             int (error_count (record_faults cfg env k st)) < MAX_ERROR_COUNT cfg
             \<and> mitm_while cfg env 0 (record_faults cfg env k st) =
                 (None, record_faults cfg env k st)))"
proof (intro conjI impI allI)
  assume a: "0 < n \<and> MAX_ERROR_COUNT cfg \<le> int n
            \<and> (\<forall>i < n. \<forall>j < n. i \<le> j \<longrightarrow> cutoff cfg env st j < stamp env st i)"
  have "filter (\<lambda>i. \<forall>j. i \<le> j \<and> j < n \<longrightarrow> cutoff cfg env st j < stamp env st i) [0..<n] = [0..<n]"
    using a by (auto simp: filter_id_conv)
  then show l: "error_timestamp_list (record_faults cfg env n st) = map (stamp env st) [0..<n]"
    using record_faults_list [OF assms(1), of cfg env n] by simp
  then show c: "error_count (record_faults cfg env n st) = n"
    using a record_faults_count [of n cfg env st] by simp
  show "mitm_while cfg env fuel (record_faults cfg env n st) =
              (Some (Inl (ChildProcessError (More_than_errors n (ERROR_LOOKBACK_MIN cfg)))),
               record_faults cfg env n st)"
    using mitm_while_tripped [of cfg "record_faults cfg env n st" env fuel] a c by simp
next
  fix k
  assume b: "\<forall>k < n. int (length (filter (\<lambda>i. cutoff cfg env st k < stamp env st i) [0..<Suc k]))
                      < MAX_ERROR_COUNT cfg"
    and k: "0 < k \<and> k \<le> n"
  then obtain m where m: "k = Suc m" "m < n" by (cases k) auto
  have "error_timestamp_list (record_faults cfg env k st) =
          map (stamp env st)
            (filter (\<lambda>i. \<forall>j. i \<le> j \<and> j < k \<longrightarrow> cutoff cfg env st j < stamp env st i) [0..<k])"
    by (rule record_faults_list [OF assms(1)])
  moreover have "length (filter (\<lambda>i. \<forall>j. i \<le> j \<and> j < k \<longrightarrow> cutoff cfg env st j < stamp env st i) [0..<k])
          \<le> length (filter (\<lambda>i. cutoff cfg env st m < stamp env st i) [0..<Suc m])"
  proof -
    have "filter (\<lambda>i. \<forall>j. i \<le> j \<and> j < k \<longrightarrow> cutoff cfg env st j < stamp env st i) [0..<k] =
          filter (\<lambda>i. \<forall>j. i \<le> j \<and> j < k \<longrightarrow> cutoff cfg env st j < stamp env st i)
            (filter (\<lambda>i. cutoff cfg env st m < stamp env st i) [0..<Suc m])"
      unfolding filter_filter m(1)
      by (rule filter_cong) auto
    then have "length (filter (\<lambda>i. \<forall>j. i \<le> j \<and> j < k \<longrightarrow> cutoff cfg env st j < stamp env st i) [0..<k]) =
          length (filter (\<lambda>i. \<forall>j. i \<le> j \<and> j < k \<longrightarrow> cutoff cfg env st j < stamp env st i)
            (filter (\<lambda>i. cutoff cfg env st m < stamp env st i) [0..<Suc m]))"
      by simp
    also have "\<dots> \<le> length (filter (\<lambda>i. cutoff cfg env st m < stamp env st i) [0..<Suc m])"
      by (rule length_filter_le)
    finally show ?thesis .
  qed
  ultimately have "error_count (record_faults cfg env k st)
          \<le> length (filter (\<lambda>i. cutoff cfg env st m < stamp env st i) [0..<Suc m])"
    using record_faults_count [of k cfg env st] k by simp
  with b m show lt: "int (error_count (record_faults cfg env k st)) < MAX_ERROR_COUNT cfg"
    by (meson le_less_trans of_nat_mono)
  then show "mitm_while cfg env 0 (record_faults cfg env k st) = (None, record_faults cfg env k st)"
    by simp
qed

theorem error_window_trips_the_loop_witness:
  "mitm_while sample_cfg (calm_env 0) 5 (record_faults sample_cfg (calm_env 0) 3 init) =
     (Some (Inl (ChildProcessError (More_than_errors 3 60))),
      record_faults sample_cfg (calm_env 0) 3 init)
   \<and> error_count (record_faults sample_cfg (calm_env 0) 3 init) = 3
   \<and> error_count (record_faults sample_cfg spaced_env 3 init) = 1
   \<and> mitm_while sample_cfg spaced_env 0 (record_faults sample_cfg spaced_env 3 init) =
       (None, record_faults sample_cfg spaced_env 3 init)"
proof -
  have i: "error_timestamp_list init = []" "error_count init = 0"
    by (simp_all add: init_def)
  have burst: "0 < (3::nat) \<and> MAX_ERROR_COUNT sample_cfg \<le> int 3
      \<and> (\<forall>i < 3. \<forall>j < 3. i \<le> j \<longrightarrow>
            cutoff sample_cfg (calm_env 0) init j < stamp (calm_env 0) init i)"
    by (simp add: cutoff_def stamp_def window_def sample_cfg_def calm_env_def)
  have spaced: "\<forall>k < 3. int (length (filter (\<lambda>i. cutoff sample_cfg spaced_env init k
                    < stamp spaced_env init i) [0..<Suc k])) < MAX_ERROR_COUNT sample_cfg"
    by (auto simp: cutoff_def stamp_def window_def sample_cfg_def spaced_env_def calm_env_def
          init_def less_Suc_eq numeral_3_eq_3)
  have one: "error_count (record_faults sample_cfg spaced_env 3 init) = 1"
    by (simp add: numeral_3_eq_3 add_error_def Let_def sample_cfg_def spaced_env_def
          calm_env_def init_def)
  note a = error_window_trips_the_loop
    [OF i, of 3 sample_cfg "calm_env 0" 5, THEN conjunct1, THEN mp, OF burst]
  note b = error_window_trips_the_loop
    [OF i, of 3 sample_cfg spaced_env 0, THEN conjunct2, THEN mp, OF spaced, THEN spec, of 3,
     THEN mp, THEN conjunct2]
  have b': "mitm_while sample_cfg spaced_env 0 (record_faults sample_cfg spaced_env 3 init) =
       (None, record_faults sample_cfg spaced_env 3 init)"
    by (rule b) simp
  have l: "ERROR_LOOKBACK_MIN sample_cfg = 60" by (simp add: sample_cfg_def)
  show ?thesis
    using a [THEN conjunct2] b' one unfolding l by (intro conjI) (elim conjE, assumption)+
qed

text \<open>
  Two runs of the loop itself, with every receive timing out: with the clock standing
  still the third fault ends the relay; with the faults more than an hour apart the
  loop never ends.
\<close>

lemma burst_of_timeouts_stops_the_relay:
  "mitm_loop sample_cfg (calm_env 0) 3 connected =
     (Some (Inl (ChildProcessError (More_than_errors 3 60))),
      \<lparr>dgram = None, juicebox_addr = None, error_count = 3,
       error_timestamp_list = [0, 0, 0], tick = 11,
       trace = [LoopStart, Recv, Fault, Fault, Bind True, Sleep 5, LoopStart, Recv, Fault]\<rparr>)"
  by (simp add: mitm_loop_def numeral_3_eq_3 recv_def connect_def connect_loop.simps
        try_bind_def sleep_def add_error_def Let_def sample_cfg_def calm_env_def connected_def
        init_def)

lemma sparse_add_error:
  assumes "sparse st"
  shows "sparse (add_error sample_cfg spaced_env st)"
    and "error_count (add_error sample_cfg spaced_env st) = 1"
proof -
  have "filter (\<lambda>el. 2000 * (1 + real (tick st)) - 3600 < el) (error_timestamp_list st) = []"
    using assms by (auto simp: sparse_def filter_empty_conv)
  then have l: "error_timestamp_list (add_error sample_cfg spaced_env st) = [2000 * real (tick st)]"
    by (simp add: add_error_def Let_def sample_cfg_def spaced_env_def calm_env_def)
  then show "error_count (add_error sample_cfg spaced_env st) = 1" by simp
  with l show "sparse (add_error sample_cfg spaced_env st)"
    by (simp add: sparse_def)
qed

lemma sparse_later:
  assumes "sparse st" "error_timestamp_list st' = error_timestamp_list st"
    "error_count st' = error_count st" "tick st \<le> tick st'"
  shows "sparse st'"
  using assms unfolding sparse_def
  by (smt (verit) of_nat_mono)

lemma spaced_timeouts_never_stop:
  "sparse st \<Longrightarrow> fst (mitm_while sample_cfg spaced_env n st) = None"
proof (induction n arbitrary: st)
  case 0
  then show ?case by (simp add: sparse_def sample_cfg_def)
next
  case (Suc n)
  have guard: "int (error_count st) < MAX_ERROR_COUNT sample_cfg"
    using Suc.prems by (simp add: sparse_def sample_cfg_def)
  show ?case
  proof (cases "dgram st")
    case None
    define sa where "sa = add_error sample_cfg spaced_env st"
    have sa: "sparse sa" "error_count sa = 1" "dgram sa = None"
      using sparse_add_error [OF Suc.prems] None by (simp_all add: sa_def)
    define sc where "sc = sa\<lparr>tick := tick sa + 3, trace := trace sa @ [Bind True, Sleep 5],
                          dgram := Some (Sock (tick sa + 1))\<rparr>"
    have cl: "connect_loop sample_cfg spaced_env 1 sa = (None, sc)"
      using sa(2,3)
      by (simp add: connect_loop.simps [of _ _ 1] connect_loop.simps [of _ _ 2] try_bind_def
            sleep_def Let_def sample_cfg_def spaced_env_def calm_env_def sc_def)
    have "sparse (sc\<lparr>trace := trace sc @ [LoopStart]\<rparr>)"
      by (rule sparse_later [OF sa(1)]) (simp_all add: sc_def)
    from Suc.IH [OF this]
    have "fst (connect sample_cfg spaced_env
                (\<lambda>s. mitm_while sample_cfg spaced_env n (s\<lparr>trace := trace s @ [LoopStart]\<rparr>)) sa)
            = None"
      using cl by (auto simp: connect_def sc_def split: prod.splits option.splits sum.splits)
    then show ?thesis
      using guard None
      by (auto simp: sa_def split: prod.splits option.splits sum.splits)
  next
    case (Some sk)
    define sb where "sb = (add_error sample_cfg spaced_env
                            (st\<lparr>tick := tick st + 1, trace := trace st @ [Recv]\<rparr>))\<lparr>dgram := None\<rparr>"
    have "sparse (st\<lparr>tick := tick st + 1, trace := trace st @ [Recv]\<rparr>)"
      by (rule sparse_later [OF Suc.prems]) simp_all
    from sparse_add_error(1) [OF this] have "sparse sb"
      unfolding sb_def by (rule sparse_later) simp_all
    from Suc.IH [OF this] show ?thesis
      using guard Some
      by (simp add: recv_def sb_def spaced_env_def calm_env_def)
  qed
qed

text \<open>
  C2, evaluated.  A relay with an empty fault record and \<open>MAX_ERROR_COUNT\<close> 3
  receives a datagram of the device.  Forwarding it finds the transport closed (the
  first fault); \<open>send_data\<close> reconnects, and the receive loop awaited inside
  \<open>_connect\<close> finds the transport closed again (the second fault) and records its
  reconnection (the third), all within six seconds.  The \<open>_connect\<close> of line 100
  then raises "unable to start" at once (lines 66 and 87); the handler's
  \<open>except OSError\<close> of line 147 catches it, and the \<open>KeyError\<close> of line 150 is
  what ends the receive loop, not a fatal failure.
\<close>

theorem error_budget_ends_in_KeyError:
  "mitm_loop sample_cfg lost_socket_env 3 connected =
     (Some (Inl KeyError),
      \<lparr>dgram = None, juicebox_addr = Some device, error_count = 3,
       error_timestamp_list = [0, 51 / 10, 51 / 10], tick = 14,
       trace = [LoopStart, Recv, CallLocal (Bytes [1, 2]),
                Send (Bytes [1, 2]) (''cloud'', 8042), Fault, Sleep (1 / 10),
                Bind True, Sleep 5, LoopStart, Recv, Fault, Fault]\<rparr>)
   \<and> MAX_ERROR_COUNT sample_cfg = 3"
  by (simp add: mitm_loop_def numeral_3_eq_3 main_mitm_handler_def forward_local_def
        report_oserror_def handler_timeout_exit_def call_local_def recv_def connect_def
        connect_loop.simps try_bind_def
        send_data_def send_data_loop.simps SEND_DATA_RETRIES_def transmit_def sleep_def
        add_error_def Let_def sample_cfg_def lost_socket_env_def calm_env_def
        connected_def init_def device_def)

section \<open>The sending lock\<close>

lemma resume_lock_respected: "lock_respected w \<Longrightarrow> lock_respected (resume c w)"
  by (cases c; cases "send_at w"; cases "bind_at w")
     (auto simp: lock_respected_def)

lemma run_lock_respected: "lock_respected w \<Longrightarrow> lock_respected (run cs w)"
  by (induction cs arbitrary: w) (simp_all add: resume_lock_respected)

text \<open>
  C9, as the source has it.  Whatever the schedule, a transmission is in flight only
  while the sender holds the lock, and a bind that took the lock is in flight only
  while the connector holds it: these two never overlap.
\<close>

theorem send_and_locked_bind_exclusive:
  "(send_at (run cs idle) = Send_in_flight \<longrightarrow> sending_lock (run cs idle) = Some Sender)
   \<and> (bind_at (run cs idle) = Bind_in_flight True \<longrightarrow>
        sending_lock (run cs idle) = Some Connector)
   \<and> \<not> (send_at (run cs idle) = Send_in_flight \<and> bind_at (run cs idle) = Bind_in_flight True)"
proof -
  have "lock_respected idle" by (simp add: lock_respected_def idle_def)
  from run_lock_respected [OF this, of cs] show ?thesis
    by (auto simp: lock_respected_def)
qed

theorem send_and_locked_bind_exclusive_witness:
  "send_at (run [Connector, Sender, Connector, Sender] idle) = Send_in_flight
   \<and> sending_lock (run [Connector, Sender, Connector, Sender] idle) = Some Sender
   \<and> bind_at (run [Connector, Sender] idle) = Bind_in_flight True
   \<and> sending_lock (run [Connector, Sender] idle) = Some Connector
   \<and> send_at (run [Connector, Sender] idle) = Send_waiting"
  using send_and_locked_bind_exclusive [of "[Connector, Sender, Connector, Sender]"]
    send_and_locked_bind_exclusive [of "[Connector, Sender]"]
  by (simp add: idle_def)

text \<open>
  The claim as written fails: a connector resumed while the sender holds the lock binds
  without it, and the bind and the transmission are in flight together.
\<close>

theorem bind_overlaps_send_counterexample:
  "send_at (run [Sender, Connector] idle) = Send_in_flight
   \<and> bind_at (run [Sender, Connector] idle) = Bind_in_flight False
   \<and> sending_lock (run [Sender, Connector] idle) = Some Sender"
  by (simp add: idle_def)

section \<open>Round trip of the codec\<close>

lemma split_frame_parts:
  assumes "split_frame s = Some (p, cs, t)"
  shows "s = p @ ''!'' @ cs @ [t]"
proof -
  from assms obtain c1 c2 c3 rp where
    r: "rev s = t # c3 # c2 # c1 # CHR ''!'' # rp" and p: "p = rev rp" and cs: "cs = [c1, c2, c3]"
    by (auto simp: split_frame_def split: list.splits if_splits)
  have "s = rev (rev s)" by simp
  also have "\<dots> = p @ ''!'' @ cs @ [t]" unfolding r p cs by simp
  finally show ?thesis .
qed

lemma expect_parts: "expect lit s = Some r \<Longrightarrow> s = lit @ r"
  by (auto simp: expect_def split: if_splits) (metis append_take_drop_id)

lemma digits_n_parts: "digits_n n s = Some (d, r) \<Longrightarrow> s = d @ r"
  by (auto simp: digits_n_def split: if_splits)

lemma parse_command_payload:
  assumes "parse_command v p = Some f"
  shows "command_payload f = p"
  using assms
  by (auto simp: parse_command_def command_payload_def
        split: Option.bind_splits if_splits prod.splits
        dest!: expect_parts digits_n_parts)

lemma join_split_commas: "join_commas (split_commas s) = s"
proof (induction s)
  case Nil
  show ?case by simp
next
  case (Cons c cs)
  obtain t ts where sp: "split_commas cs = t # ts"
    by (cases "split_commas cs") (cases cs; auto split: if_splits list.splits)+
  show ?case
  proof (cases "c = CHR '',''")
    case True
    with Cons sp show ?thesis by simp
  next
    case False
    with Cons sp show ?thesis by (cases ts) auto
  qed
qed

lemma join_tokens: "join_commas (map (\<lambda>(k, v). k @ v) (map split_token ts)) = join_commas ts"
proof -
  have "map (\<lambda>(k, v). k @ v) (map split_token ts) = ts"
    by (induction ts) (simp_all add: split_token_def)
  then show ?thesis by simp
qed

lemma parse_status_payload:
  assumes "parse_status p = Some (serial, tokens)"
  shows "status_payload serial tokens = p"
proof -
  from assms obtain body where
    d: "dropWhile digit p = CHR '':'' # body" and s: "serial = takeWhile digit p"
    and t: "tokens = map split_token (split_commas body)"
    by (auto simp: parse_status_def Let_def split: list.splits if_splits)
  have "p = takeWhile digit p @ dropWhile digit p" by simp
  then show ?thesis
    unfolding status_payload_def s t join_tokens join_split_commas d by simp
qed

text \<open>
  C1.  Whatever the checksum function and the variant, a wire string that parses as a
  command or a status message is built back exactly.
\<close>

theorem build_parse_round_trip:
  assumes "parse checksum_computed v s = Some m"
  shows "build checksum_computed m = s"
proof -
  from assms obtain p cs t where
    fr: "split_frame s = Some (p, cs, t)" and ck: "cs = checksum_computed p"
    and m: "(t = CHR ''$'' \<and> (\<exists>f. parse_command v p = Some f \<and> m = CommandMessage f cs))
            \<or> (t = CHR '':'' \<and> (\<exists>sn tk. parse_status p = Some (sn, tk) \<and> m = StatusMessage sn tk cs))"
    by (auto simp: parse_def split: option.splits prod.splits if_splits)
  note s = split_frame_parts [OF fr]
  from m show ?thesis
  proof
    assume "t = CHR ''$'' \<and> (\<exists>f. parse_command v p = Some f \<and> m = CommandMessage f cs)"
    then obtain f where "t = CHR ''$''" "parse_command v p = Some f" "m = CommandMessage f cs"
      by blast
    with parse_command_payload [of v p f] ck s show ?thesis by simp
  next
    assume "t = CHR '':'' \<and> (\<exists>sn tk. parse_status p = Some (sn, tk) \<and> m = StatusMessage sn tk cs)"
    then obtain sn tk where "t = CHR '':''" "parse_status p = Some (sn, tk)"
      "m = StatusMessage sn tk cs"
      by blast
    with parse_status_payload [of p sn tk] ck s show ?thesis by simp
  qed
qed

lemma widened_command_parses:
  "parse test_vector_checksum True ''CMD41325A0040M040C006S638!5N5$'' =
     Some (CommandMessage
       \<lparr>new_version = True, dow = ''4'', hhmm = ''1325'', instant_amperage = ''0040'',
        offline_amperage = ''040'', constant_field = ''006'', sequence = ''638''\<rparr> ''5N5'')"
  by (simp add: parse_def split_frame_def parse_command_def expect_def digits_n_def digit_def
        amperage_width_def offline_width_def test_vector_checksum_def)

lemma legacy_command_parses:
  "parse test_vector_checksum False ''CMD62207A20M20C244S997!R5Y$'' =
     Some (CommandMessage
       \<lparr>new_version = False, dow = ''6'', hhmm = ''2207'', instant_amperage = ''20'',
        offline_amperage = ''20'', constant_field = ''244'', sequence = ''997''\<rparr> ''R5Y'')"
  by (simp add: parse_def split_frame_def parse_command_def expect_def digits_n_def digit_def
        amperage_width_def offline_width_def test_vector_checksum_def)

lemma status_parses:
  "parse test_vector_checksum False
     ''0910042001260513476122621631:v09u,s627,F10,u01254993,V2414,L00004555804,S01,T08,M0040,C0040,m0040,t29,i75,e00000,f5999,r61,b000,B0000000!55M:'' =
     Some (StatusMessage ''0910042001260513476122621631''
       [(''v'', ''09u''), (''s'', ''627''), (''F'', ''10''), (''u'', ''01254993''),
        (''V'', ''2414''), (''L'', ''00004555804''), (''S'', ''01''), (''T'', ''08''),
        (''M'', ''0040''), (''C'', ''0040''), (''m'', ''0040''), (''t'', ''29''), (''i'', ''75''),
        (''e'', ''00000''), (''f'', ''5999''), (''r'', ''61''), (''b'', ''000''),
        (''B'', ''0000000'')] ''55M'')"
  by (simp add: parse_def split_frame_def parse_status_def split_token_def digit_def alpha_def
        test_vector_checksum_def)

theorem build_parse_round_trip_witness:
  "build test_vector_checksum
     (CommandMessage
       \<lparr>new_version = True, dow = ''4'', hhmm = ''1325'', instant_amperage = ''0040'',
        offline_amperage = ''040'', constant_field = ''006'', sequence = ''638''\<rparr> ''5N5'')
     = ''CMD41325A0040M040C006S638!5N5$''
   \<and> build test_vector_checksum
     (CommandMessage
       \<lparr>new_version = False, dow = ''6'', hhmm = ''2207'', instant_amperage = ''20'',
        offline_amperage = ''20'', constant_field = ''244'', sequence = ''997''\<rparr> ''R5Y'')
     = ''CMD62207A20M20C244S997!R5Y$''
   \<and> build test_vector_checksum
     (StatusMessage ''0910042001260513476122621631''
       [(''v'', ''09u''), (''s'', ''627''), (''F'', ''10''), (''u'', ''01254993''),
        (''V'', ''2414''), (''L'', ''00004555804''), (''S'', ''01''), (''T'', ''08''),
        (''M'', ''0040''), (''C'', ''0040''), (''m'', ''0040''), (''t'', ''29''), (''i'', ''75''),
        (''e'', ''00000''), (''f'', ''5999''), (''r'', ''61''), (''b'', ''000''),
        (''B'', ''0000000'')] ''55M'')
     = ''0910042001260513476122621631:v09u,s627,F10,u01254993,V2414,L00004555804,S01,T08,M0040,C0040,m0040,t29,i75,e00000,f5999,r61,b000,B0000000!55M:''"
  using build_parse_round_trip [OF widened_command_parses]
    build_parse_round_trip [OF legacy_command_parses]
    build_parse_round_trip [OF status_parses]
  by (intro conjI)

end
